theory Spec2Isabelle
  imports Complex_Main "HOL-Library.AList"
begin

section \<open>Metadata bundles of music21 (\<open>music21/metadata/bundles.py\<close>)\<close>

text \<open>
  A shallow embedding of the classes \<open>MetadataEntry\<close> and \<open>MetadataBundle\<close>.
  Python values become HOL values, a method that mutates \<open>self\<close> returns the new
  bundle, a method that touches the disk takes the file system and (when it writes)
  returns the new one, and a raised exception is the left injection of a sum type.
\<close>

subsection \<open>Python strings\<close>

text \<open>\<open>s.startswith(p)\<close> and \<open>s.endswith(p)\<close>.\<close>

definition startswith :: "string \<Rightarrow> string \<Rightarrow> bool" where
  "startswith s p = (take (length p) s = p)"

definition endswith :: "string \<Rightarrow> string \<Rightarrow> bool" where
  "endswith s p = (length p \<le> length s \<and> drop (length s - length p) s = p)"

text \<open>\<open>sub in s\<close> for strings: \<open>sub\<close> occurs somewhere in \<open>s\<close>.\<close>

fun str_contains :: "string \<Rightarrow> string \<Rightarrow> bool" where
  "str_contains [] sub = (sub = [])"
| "str_contains (c # cs) sub = (startswith (c # cs) sub \<or> str_contains cs sub)"

text \<open>\<open>s.replace(old, new)\<close> where \<open>old\<close> and \<open>new\<close> are single characters.\<close>

definition str_replace :: "string \<Rightarrow> char \<Rightarrow> char \<Rightarrow> string" where
  "str_replace s old new = map (\<lambda>c. if c = old then new else c) s"

text \<open>
  \<open>s.split(sep)\<close> for a non-empty separator: the scan runs from the left, and the
  occurrences it cuts at do not overlap. \<open>k\<close> counts the characters of a separator
  just matched that are still to be skipped, \<open>cur\<close> is the current piece, reversed.
\<close>

fun split_scan :: "string \<Rightarrow> nat \<Rightarrow> string \<Rightarrow> string \<Rightarrow> string list" where
  "split_scan sep k cur [] = [rev cur]"
| "split_scan sep k cur (c # cs) =
     (if 0 < k then split_scan sep (k - 1) cur cs
      else if startswith (c # cs) sep then rev cur # split_scan sep (length sep - 1) [] cs
      else split_scan sep 0 (c # cur) cs)"

definition str_split :: "string \<Rightarrow> string \<Rightarrow> string list" where
  "str_split s sep = split_scan sep 0 [] s"

text \<open>The decimal text of a Python integer, as \<open>str.format\<close> prints it.\<close>

function str_of_nat :: "nat \<Rightarrow> string" where
  "str_of_nat n =
     (if n < 10 then [char_of (48 + n)]
      else str_of_nat (n div 10) @ [char_of (48 + n mod 10)])"
  by pat_completeness auto
termination
  by (relation "measure id") auto

definition str_of_int :: "int \<Rightarrow> string" where
  "str_of_int i = (if i < 0 then CHR ''-'' # str_of_nat (nat (- i)) else str_of_nat (nat i))"

subsection \<open>Python dictionaries\<close>

text \<open>
  A dictionary is the list of its items in insertion order; its keys are distinct.
  \<open>d[k] = v\<close> is \<^const>\<open>AList.update\<close> (the value is replaced in place, a new key is
  appended), \<open>del d[k]\<close> is \<^const>\<open>AList.delete\<close> where the key is present.
\<close>

type_synonym ('k, 'v) dict = "('k \<times> 'v) list"

definition dict_keys :: "('k, 'v) dict \<Rightarrow> 'k list" where
  "dict_keys d = map fst d"

definition wf_dict :: "('k, 'v) dict \<Rightarrow> bool" where
  "wf_dict d = distinct (dict_keys d)"

datatype error = AssertionError | MetadataException | KeyError | TypeError | OSError

text \<open>\<open>d[k]\<close> raises \<open>KeyError\<close> where the key is missing.\<close>

definition dict_getitem :: "('k, 'v) dict \<Rightarrow> 'k \<Rightarrow> error + 'v" where
  "dict_getitem d k = (case map_of d k of None \<Rightarrow> Inl KeyError | Some v \<Rightarrow> Inr v)"

text \<open>
  \<open>d1 == d2\<close>: the same number of items, and every item of \<open>d1\<close> is found in
  \<open>d2\<close> under its key with an equal value.
\<close>

definition dict_eq :: "('k, 'v) dict \<Rightarrow> ('k, 'v) dict \<Rightarrow> bool" where
  "dict_eq d1 d2 = (length d1 = length d2 \<and> list_all (\<lambda>(k, v). map_of d2 k = Some v) d1)"

subsection \<open>Python sets of keys\<close>

text \<open>
  \<open>set(d.keys())\<close> is modelled by a duplicate-free list of its members. The order in
  which Python iterates over a set is not specified; the model fixes one, and no
  statement below depends on it: the results of the set operations are described by
  their key sets and by the entry found under each key.
\<close>

datatype set_operator =
    SetAnd | SetOr | SetSub | SetXor
  | SetDifference | SetIntersection | SetSymmetricDifference | SetUnion

text \<open>
  \<open>getattr(selfKeys, operator)(otherKeys)\<close> for the eight method names the bundle
  passes: \<open>'__and__'\<close>, \<open>'__or__'\<close>, \<open>'__sub__'\<close>, \<open>'__xor__'\<close>,
  \<open>'difference'\<close>, \<open>'intersection'\<close>, \<open>'symmetric_difference'\<close>, \<open>'union'\<close>.
\<close>

fun set_getattr :: "set_operator \<Rightarrow> 'a list \<Rightarrow> 'a list \<Rightarrow> 'a list" where
  "set_getattr SetAnd a b = filter (\<lambda>k. k \<in> set b) a"
| "set_getattr SetIntersection a b = filter (\<lambda>k. k \<in> set b) a"
| "set_getattr SetOr a b = a @ filter (\<lambda>k. k \<notin> set a) b"
| "set_getattr SetUnion a b = a @ filter (\<lambda>k. k \<notin> set a) b"
| "set_getattr SetSub a b = filter (\<lambda>k. k \<notin> set b) a"
| "set_getattr SetDifference a b = filter (\<lambda>k. k \<notin> set b) a"
| "set_getattr SetXor a b = filter (\<lambda>k. k \<notin> set b) a @ filter (\<lambda>k. k \<notin> set a) b"
| "set_getattr SetSymmetricDifference a b =
     filter (\<lambda>k. k \<notin> set b) a @ filter (\<lambda>k. k \<notin> set a) b"

text \<open>What each operator means on mathematical sets.\<close>

fun set_meaning :: "set_operator \<Rightarrow> 'a set \<Rightarrow> 'a set \<Rightarrow> 'a set" where
  "set_meaning SetAnd A B = A \<inter> B"
| "set_meaning SetIntersection A B = A \<inter> B"
| "set_meaning SetOr A B = A \<union> B"
| "set_meaning SetUnion A B = A \<union> B"
| "set_meaning SetSub A B = A - B"
| "set_meaning SetDifference A B = A - B"
| "set_meaning SetXor A B = (A - B) \<union> (B - A)"
| "set_meaning SetSymmetricDifference A B = (A - B) \<union> (B - A)"

datatype set_predicate =
    PredGe | PredGt | PredLe | PredLt | PredIsdisjoint | PredIssubset | PredIssuperset

text \<open>
  The predicates of Python's \<open>set\<close>, as the interpreter computes them: \<open>issubset\<close>
  looks every member up in the other set, \<open>isdisjoint\<close> finds no member there, and
  the strict comparisons compare the sizes first.
\<close>

definition set_issubset :: "'a list \<Rightarrow> 'a list \<Rightarrow> bool" where
  "set_issubset a b = list_all (\<lambda>k. k \<in> set b) a"

fun set_getattr_predicate :: "set_predicate \<Rightarrow> 'a list \<Rightarrow> 'a list \<Rightarrow> bool" where
  "set_getattr_predicate PredGe a b = set_issubset b a"
| "set_getattr_predicate PredGt a b = (length b < length a \<and> set_issubset b a)"
| "set_getattr_predicate PredLe a b = set_issubset a b"
| "set_getattr_predicate PredLt a b = (length a < length b \<and> set_issubset a b)"
| "set_getattr_predicate PredIsdisjoint a b = list_all (\<lambda>k. k \<notin> set b) a"
| "set_getattr_predicate PredIssubset a b = set_issubset a b"
| "set_getattr_predicate PredIssuperset a b = set_issubset b a"

subsection \<open>Entries and bundles\<close>

text \<open>
  \<open>MetadataEntry\<close> holds \<open>_sourcePath\<close>, \<open>_number\<close> and \<open>_metadataPayload\<close>. The class
  defines no \<open>__eq__\<close>, so Python compares two entries by object identity;
  \<open>object_id\<close> is that identity (what \<open>id(entry)\<close> returns), so that two entry
  values are equal exactly when they are the same object. The payload is opaque: its
  type is the parameter \<open>'p\<close>, and \<open>None\<close> marks a stub entry.
\<close>

record 'p MetadataEntry =
  object_id :: nat
  sourcePath :: string
  number :: "int option"
  metadataPayload :: "'p option"

text \<open>\<open>MetadataBundle\<close> holds \<open>_name\<close> and \<open>_metadataEntries\<close>.\<close>

record 'p MetadataBundle =
  name :: "string option"
  metadataEntries :: "(string, 'p MetadataEntry) dict"

text \<open>
  The initializer \<open>MetadataBundle(expr)\<close>, for \<open>expr\<close> \<open>None\<close> or a name (a \<open>Corpus\<close>
  object passes its name).
\<close>

definition new_bundle :: "string option \<Rightarrow> 'p MetadataBundle" where
  "new_bundle expr = \<lparr>name = expr, metadataEntries = []\<rparr>"

text \<open>
  The operand of a set operation or comparison is any Python object: a bundle, or
  something else (the doctest of \<open>__eq__\<close> passes the string \<open>'foo'\<close>).
\<close>

datatype 'p pyobject = BundleObj "'p MetadataBundle" | StrObj string | IntObj int | NoneObj

text \<open>\<open>isinstance(x, type(self))\<close>, and \<open>type(self) == type(x)\<close>, for a bundle \<open>self\<close>.\<close>

fun isinstance_bundle :: "'p pyobject \<Rightarrow> bool" where
  "isinstance_bundle (BundleObj b) = True"
| "isinstance_bundle x = False"

definition len_bundle :: "'p MetadataBundle \<Rightarrow> nat" where
  "len_bundle self = length (metadataEntries self)"

subsection \<open>Set algebra and comparisons\<close>

text \<open>
  The loop of \<open>_apply_set_operation\<close>: for each key of the result, the entry comes
  from \<open>self\<close> where \<open>self\<close> holds the key, else from the other bundle.
\<close>

fun rehydrate ::
  "(string, 'p MetadataEntry) dict \<Rightarrow> (string, 'p MetadataEntry) dict \<Rightarrow> string list
    \<Rightarrow> (string, 'p MetadataEntry) dict \<Rightarrow> error + (string, 'p MetadataEntry) dict" where
  "rehydrate selfEntries otherEntries [] result = Inr result"
| "rehydrate selfEntries otherEntries (key # keys) result =
     (case (if key \<in> set (dict_keys selfEntries) then dict_getitem selfEntries key
            else dict_getitem otherEntries key) of
        Inl e \<Rightarrow> Inl e
      | Inr metadataEntry \<Rightarrow>
          rehydrate selfEntries otherEntries keys (AList.update key metadataEntry result))"

definition apply_set_operation ::
  "'p MetadataBundle \<Rightarrow> 'p pyobject \<Rightarrow> set_operator \<Rightarrow> error + 'p MetadataBundle" where
  "apply_set_operation self metadataBundle operator =
     (case metadataBundle of
        BundleObj other \<Rightarrow>
          (let selfKeys = dict_keys (metadataEntries self);
               otherKeys = dict_keys (metadataEntries other);
               resultKeys = set_getattr operator selfKeys otherKeys
           in case rehydrate (metadataEntries self) (metadataEntries other) resultKeys
                     (metadataEntries (new_bundle None)) of
                Inl e \<Rightarrow> Inl e
              | Inr d \<Rightarrow> Inr ((new_bundle None)\<lparr>metadataEntries := d\<rparr>))
      | StrObj s \<Rightarrow> Inl AssertionError
      | IntObj i \<Rightarrow> Inl AssertionError
      | NoneObj \<Rightarrow> Inl AssertionError)"

definition apply_set_predicate ::
  "'p MetadataBundle \<Rightarrow> 'p pyobject \<Rightarrow> set_predicate \<Rightarrow> error + bool" where
  "apply_set_predicate self metadataBundle predicate =
     (case metadataBundle of
        BundleObj other \<Rightarrow>
          (let selfKeys = dict_keys (metadataEntries self);
               otherKeys = dict_keys (metadataEntries other)
           in Inr (set_getattr_predicate predicate selfKeys otherKeys))
      | StrObj s \<Rightarrow> Inl AssertionError
      | IntObj i \<Rightarrow> Inl AssertionError
      | NoneObj \<Rightarrow> Inl AssertionError)"

text \<open>The public methods and operators; each names the operation it dispatches to.\<close>

definition and_bundle :: "'p MetadataBundle \<Rightarrow> 'p pyobject \<Rightarrow> error + 'p MetadataBundle" where
  "and_bundle self x = apply_set_operation self x SetAnd"

definition or_bundle :: "'p MetadataBundle \<Rightarrow> 'p pyobject \<Rightarrow> error + 'p MetadataBundle" where
  "or_bundle self x = apply_set_operation self x SetOr"

definition sub_bundle :: "'p MetadataBundle \<Rightarrow> 'p pyobject \<Rightarrow> error + 'p MetadataBundle" where
  "sub_bundle self x = apply_set_operation self x SetSub"

definition xor_bundle :: "'p MetadataBundle \<Rightarrow> 'p pyobject \<Rightarrow> error + 'p MetadataBundle" where
  "xor_bundle self x = apply_set_operation self x SetXor"

definition difference_bundle ::
  "'p MetadataBundle \<Rightarrow> 'p pyobject \<Rightarrow> error + 'p MetadataBundle" where
  "difference_bundle self x = apply_set_operation self x SetDifference"

definition intersection_bundle ::
  "'p MetadataBundle \<Rightarrow> 'p pyobject \<Rightarrow> error + 'p MetadataBundle" where
  "intersection_bundle self x = apply_set_operation self x SetIntersection"

definition symmetric_difference ::
  "'p MetadataBundle \<Rightarrow> 'p pyobject \<Rightarrow> error + 'p MetadataBundle" where
  "symmetric_difference self x = apply_set_operation self x SetSymmetricDifference"

definition union_bundle :: "'p MetadataBundle \<Rightarrow> 'p pyobject \<Rightarrow> error + 'p MetadataBundle" where
  "union_bundle self x = apply_set_operation self x SetUnion"

definition ge_bundle :: "'p MetadataBundle \<Rightarrow> 'p pyobject \<Rightarrow> error + bool" where
  "ge_bundle self x = apply_set_predicate self x PredGe"

definition gt_bundle :: "'p MetadataBundle \<Rightarrow> 'p pyobject \<Rightarrow> error + bool" where
  "gt_bundle self x = apply_set_predicate self x PredGt"

definition le_bundle :: "'p MetadataBundle \<Rightarrow> 'p pyobject \<Rightarrow> error + bool" where
  "le_bundle self x = apply_set_predicate self x PredLe"

definition lt_bundle :: "'p MetadataBundle \<Rightarrow> 'p pyobject \<Rightarrow> error + bool" where
  "lt_bundle self x = apply_set_predicate self x PredLt"

definition isdisjoint :: "'p MetadataBundle \<Rightarrow> 'p pyobject \<Rightarrow> error + bool" where
  "isdisjoint self x = apply_set_predicate self x PredIsdisjoint"

definition issubset :: "'p MetadataBundle \<Rightarrow> 'p pyobject \<Rightarrow> error + bool" where
  "issubset self x = apply_set_predicate self x PredIssubset"

definition issuperset :: "'p MetadataBundle \<Rightarrow> 'p pyobject \<Rightarrow> error + bool" where
  "issuperset self x = apply_set_predicate self x PredIssuperset"

text \<open>
  \<open>__eq__\<close>: true when the operand has the type of \<open>self\<close> and the two dictionaries
  are equal, else false. It has no raising branch, so its result is a plain boolean.
\<close>

definition eq_bundle :: "'p MetadataBundle \<Rightarrow> 'p pyobject \<Rightarrow> bool" where
  "eq_bundle self other =
     (case other of
        BundleObj b \<Rightarrow> (if dict_eq (metadataEntries self) (metadataEntries b) then True else False)
      | StrObj s \<Rightarrow> False
      | IntObj i \<Rightarrow> False
      | NoneObj \<Rightarrow> False)"

text \<open>
  \<open>__ne__\<close> is \<open>return self != expr\<close>: the operator \<open>!=\<close> on a bundle calls
  \<open>__ne__\<close> again, with the same arguments. The result is \<open>None\<close> where the
  evaluation does not return.
\<close>

partial_function (option) ne_bundle :: "'p MetadataBundle \<Rightarrow> 'p pyobject \<Rightarrow> bool option" where
  "ne_bundle self expr = ne_bundle self expr"

subsection \<open>The platform and the file system\<close>

text \<open>
  What the module reads from its surroundings: \<open>os.sep\<close>, the functions of
  \<open>os.path\<close> that depend on the platform and the working directory, the three
  directories that \<open>common\<close> and \<open>environLocal\<close> report, and the clock.
\<close>

record environment =
  os_sep :: char
  os_path_abspath :: "string \<Rightarrow> string"
  os_path_isabs :: "string \<Rightarrow> bool"
  os_path_join :: "string \<Rightarrow> string \<Rightarrow> string"
  getMetadataCacheFilePath :: string
  getRootTempDir :: string
  getCorpusFilePath :: string
  time_time :: real

text \<open>
  A file has a last-change time (\<open>os.path.getctime\<close>) and, read as a snapshot, the
  entries it holds. The file system maps each path that exists to its file.
\<close>

record 'p fsfile =
  ctime :: real
  stored :: "(string, 'p MetadataEntry) dict"

type_synonym 'p filesystem = "string \<Rightarrow> 'p fsfile option"

definition os_path_exists :: "'p filesystem \<Rightarrow> string \<Rightarrow> bool" where
  "os_path_exists fs path = (fs path \<noteq> None)"

text \<open>\<open>os.path.getctime\<close> raises \<open>OSError\<close> for a path that does not exist.\<close>

definition os_path_getctime :: "'p filesystem \<Rightarrow> string \<Rightarrow> error + real" where
  "os_path_getctime fs path = (case fs path of None \<Rightarrow> Inl OSError | Some f \<Rightarrow> Inr (ctime f))"

text \<open>
  Modelled from the spec: \<open>freezeThaw.JSONFreezer(self).jsonWrite(filePath)\<close> is not
  in the sources. The spec asks of the serializer that it writes the full entries
  mapping to the location, overwriting any existing file. The file written gets the
  current time as its last-change time.
\<close>

definition jsonWrite ::
  "environment \<Rightarrow> 'p filesystem \<Rightarrow> 'p MetadataBundle \<Rightarrow> string \<Rightarrow> 'p filesystem" where
  "jsonWrite env fs self path =
     fs(path \<mapsto> \<lparr>ctime = time_time env, stored = metadataEntries self\<rparr>)"

text \<open>
  Modelled from the spec: \<open>freezeThaw.JSONThawer(self).jsonRead(filePath)\<close> is not in
  the sources. The spec asks that reading deserializes the snapshot into the entries,
  replacing any prior content. Opening a file that does not exist is an \<open>OSError\<close>.
\<close>

definition jsonRead ::
  "'p filesystem \<Rightarrow> 'p MetadataBundle \<Rightarrow> string \<Rightarrow> error + 'p MetadataBundle" where
  "jsonRead fs self path =
     (case fs path of
        None \<Rightarrow> Inl OSError
      | Some f \<Rightarrow> Inr (self\<lparr>metadataEntries := stored f\<rparr>))"

subsection \<open>Persistence\<close>

text \<open>The property \<open>filePath\<close>: where a named bundle is cached, \<open>None\<close> for an unnamed one.\<close>

definition filePath :: "environment \<Rightarrow> 'p MetadataBundle \<Rightarrow> string option" where
  "filePath env self =
     (case name self of
        None \<Rightarrow> None
      | Some n \<Rightarrow>
          if n = ''virtual'' \<or> n = ''core''
          then Some (os_path_join env (getMetadataCacheFilePath env) (n @ ''.json''))
          else if n = ''local''
          then Some (os_path_join env (getRootTempDir env) (n @ ''.json''))
          else Some (os_path_join env (getRootTempDir env) (''local-'' @ n @ ''.json'')))"

text \<open>
  \<open>x or y\<close> on an optional string: \<open>None\<close> and the empty string are false.
\<close>

definition py_or :: "string option \<Rightarrow> string option \<Rightarrow> string option" where
  "py_or x y = (case x of None \<Rightarrow> y | Some s \<Rightarrow> if s = [] then y else Some s)"

text \<open>
  \<open>write(filePath=None)\<close>, named \<open>write_bundle\<close> here. The first statement computes
  \<open>filePath or self.filePath\<close>; the branch that writes then assigns \<open>self.filePath\<close>
  to the same variable, and the other branch returns without writing. The result is
  the file system after the call.
\<close>

definition write_bundle ::
  "environment \<Rightarrow> 'p filesystem \<Rightarrow> 'p MetadataBundle \<Rightarrow> string option \<Rightarrow> 'p filesystem" where
  "write_bundle env fs self path =
     (let path1 = py_or path (filePath env self)
      in case filePath env self of
           Some own \<Rightarrow> (let path2 = own in jsonWrite env fs self path2)
         | None \<Rightarrow> fs)"

text \<open>
  \<open>read(filePath=None)\<close>, named \<open>read_bundle\<close> here. Where the path is still \<open>None\<close>
  after the default and the bundle has a name, the source goes on to
  \<open>os.path.exists(None)\<close>, a \<open>TypeError\<close>.
\<close>

definition read_bundle ::
  "environment \<Rightarrow> 'p filesystem \<Rightarrow> 'p MetadataBundle \<Rightarrow> string option
    \<Rightarrow> error + 'p MetadataBundle" where
  "read_bundle env fs self path =
     (let path1 = (case path of None \<Rightarrow> filePath env self | Some p \<Rightarrow> Some p)
      in case path1 of
           None \<Rightarrow> (if name self = None then Inl MetadataException else Inl TypeError)
         | Some p \<Rightarrow> (if \<not> os_path_exists fs p then Inr self else jsonRead fs self p))"

subsection \<open>Validation\<close>

text \<open>
  The first loop of \<open>validate\<close>, over the items of the dictionary in order;
  \<open>validatedPaths\<close> is a set that is only tested for membership.
\<close>

fun validate_loop ::
  "environment \<Rightarrow> 'p filesystem \<Rightarrow> (string, 'p MetadataEntry) dict \<Rightarrow> string list
    \<Rightarrow> string set \<Rightarrow> string list" where
  "validate_loop env fs [] invalidatedKeys validatedPaths = invalidatedKeys"
| "validate_loop env fs ((key, metadataEntry) # items) invalidatedKeys validatedPaths =
     (if sourcePath metadataEntry \<in> validatedPaths
      then validate_loop env fs items invalidatedKeys validatedPaths
      else if startswith (sourcePath metadataEntry) ''http:''
      then validate_loop env fs items invalidatedKeys
             (insert (sourcePath metadataEntry) validatedPaths)
      else
        (let path = (if \<not> os_path_isabs env (sourcePath metadataEntry)
                     then os_path_abspath env
                            (os_path_join env (getCorpusFilePath env) (sourcePath metadataEntry))
                     else sourcePath metadataEntry)
         in validate_loop env fs items
              (if \<not> os_path_exists fs path then invalidatedKeys @ [key] else invalidatedKeys)
              (insert (sourcePath metadataEntry) validatedPaths)))"

text \<open>The second loop: \<open>del self._metadataEntries[key]\<close> for each invalidated key.\<close>

fun delete_keys ::
  "(string, 'p MetadataEntry) dict \<Rightarrow> string list \<Rightarrow> error + (string, 'p MetadataEntry) dict" where
  "delete_keys d [] = Inr d"
| "delete_keys d (key # keys) =
     (if key \<in> set (dict_keys d) then delete_keys (AList.delete key d) keys else Inl KeyError)"

text \<open>\<open>validate()\<close> returns the bundle after the removals and the number it reports.\<close>

definition validate ::
  "environment \<Rightarrow> 'p filesystem \<Rightarrow> 'p MetadataBundle \<Rightarrow> error + ('p MetadataBundle \<times> nat)" where
  "validate env fs self =
     (let invalidatedKeys = validate_loop env fs (metadataEntries self) [] {}
      in case delete_keys (metadataEntries self) invalidatedKeys of
           Inl e \<Rightarrow> Inl e
         | Inr d \<Rightarrow> Inr (self\<lparr>metadataEntries := d\<rparr>, length invalidatedKeys))"

subsection \<open>Search\<close>

text \<open>
  The loop over \<open>fileExtensions\<close>, with its two \<open>break\<close>s: \<open>include\<close> becomes true at
  the first member that the source path ends with, or that ends with \<open>'xml'\<close> while
  the source path ends with \<open>'mxl'\<close> or \<open>'mx'\<close>.
\<close>

fun extension_loop :: "string \<Rightarrow> string list \<Rightarrow> bool" where
  "extension_loop path [] = False"
| "extension_loop path (fileExtension # rest) =
     (if endswith path fileExtension then True
      else if endswith fileExtension ''xml'' \<and> (endswith path ''mxl'' \<or> endswith path ''mx'')
      then True
      else extension_loop path rest)"

text \<open>
  The loop of \<open>search\<close>. \<open>payload_search p query field\<close> is the first component of
  what the payload's own \<open>search\<close> returns: whether the query matched. The loop runs
  over the keys of the dictionary and reads the entry under each key, which is the
  item's value.
\<close>

fun search_loop ::
  "('p \<Rightarrow> 'q \<Rightarrow> string option \<Rightarrow> bool) \<Rightarrow> 'q \<Rightarrow> string option \<Rightarrow> string list option
    \<Rightarrow> (string, 'p MetadataEntry) dict \<Rightarrow> (string, 'p MetadataEntry) dict
    \<Rightarrow> (string, 'p MetadataEntry) dict" where
  "search_loop payload_search query field fileExtensions [] result = result"
| "search_loop payload_search query field fileExtensions ((key, metadataEntry) # items) result =
     (case metadataPayload metadataEntry of
        None \<Rightarrow> search_loop payload_search query field fileExtensions items result
      | Some payload \<Rightarrow>
          if payload_search payload query field
          then
            (let include =
                   (case fileExtensions of
                      Some exts \<Rightarrow> extension_loop (sourcePath metadataEntry) exts
                    | None \<Rightarrow> True)
             in if include \<and> key \<notin> set (dict_keys result)
                then search_loop payload_search query field fileExtensions items
                       (AList.update key metadataEntry result)
                else search_loop payload_search query field fileExtensions items result)
          else search_loop payload_search query field fileExtensions items result)"

definition search ::
  "('p \<Rightarrow> 'q \<Rightarrow> string option \<Rightarrow> bool) \<Rightarrow> 'p MetadataBundle \<Rightarrow> 'q \<Rightarrow> string option
    \<Rightarrow> string list option \<Rightarrow> 'p MetadataBundle" where
  "search payload_search self query field fileExtensions =
     (new_bundle None)
       \<lparr>metadataEntries :=
          search_loop payload_search query field fileExtensions (metadataEntries self)
            (metadataEntries (new_bundle None))\<rparr>"

subsection \<open>Keys and the jobs of a rebuild\<close>

text \<open>The static method \<open>corpusPathToKey(filePath, number=None)\<close>.\<close>

definition corpusPathToKey :: "environment \<Rightarrow> string \<Rightarrow> int option \<Rightarrow> string" where
  "corpusPathToKey env path num =
     (let corpusPath0 = (if str_contains path ''corpus'' \<or> str_contains path ''music21''
                         then last (str_split path ''corpus'') else path);
          corpusPath1 = (if startswith corpusPath0 [os_sep env] then drop 1 corpusPath0
                         else corpusPath0);
          corpusPath2 = str_replace corpusPath1 (CHR ''/'') (CHR ''_'');
          corpusPath3 = str_replace corpusPath2 (os_sep env) (CHR ''_'');
          corpusPath4 = str_replace corpusPath3 (CHR ''.'') (CHR ''_'')
      in case num of
           Some n \<Rightarrow> corpusPath4 @ ''_'' @ str_of_int n
         | None \<Rightarrow> corpusPath4)"

text \<open>A \<open>MetadataCachingJob(path, jobNumber=..., useCorpus=...)\<close>.\<close>

record job =
  job_filePath :: string
  jobNumber :: nat
  useCorpus :: bool

text \<open>
  The reference time of \<open>addFromPaths\<close>, taken once before the loop: the last-change
  time of the bundle's own file where the bundle has one and it exists, else the
  current time.
\<close>

definition metadataBundleModificationTime ::
  "environment \<Rightarrow> 'p filesystem \<Rightarrow> 'p MetadataBundle \<Rightarrow> real" where
  "metadataBundleModificationTime env fs self =
     (case filePath env self of
        None \<Rightarrow> time_time env
      | Some p \<Rightarrow> (case fs p of None \<Rightarrow> time_time env | Some f \<Rightarrow> ctime f))"

text \<open>How the loop rewrites each path before it derives the key.\<close>

definition normalize_path :: "environment \<Rightarrow> string \<Rightarrow> string" where
  "normalize_path env path =
     (if \<not> startswith path ''http'' then os_path_abspath env path else path)"

text \<open>
  The first loop of \<open>addFromPaths\<close>, which builds the list of jobs. The state is
  \<open>currentJobNumber\<close>, \<open>skippedJobsCount\<close> and \<open>jobs\<close>; \<open>mtime\<close> is the reference
  time. \<open>os.path.getctime\<close> of a path that does not exist ends the call with an error.
\<close>

fun jobs_loop ::
  "environment \<Rightarrow> 'p filesystem \<Rightarrow> (string, 'p MetadataEntry) dict \<Rightarrow> real \<Rightarrow> bool
    \<Rightarrow> string list \<Rightarrow> nat \<times> nat \<times> job list \<Rightarrow> error + (nat \<times> nat \<times> job list)" where
  "jobs_loop env fs entries mtime uc [] state = Inr state"
| "jobs_loop env fs entries mtime uc (path # paths) (currentJobNumber, skippedJobsCount, jobs) =
     (let path1 = normalize_path env path;
          key = corpusPathToKey env path1 None;
          scheduled =
            (currentJobNumber + 1, skippedJobsCount,
             jobs @ [\<lparr>job_filePath = path1, jobNumber = currentJobNumber + 1, useCorpus = uc\<rparr>])
      in if key \<in> set (dict_keys entries) \<and> \<not> startswith key ''http''
         then
           (case os_path_getctime fs path1 of
              Inl e \<Rightarrow> Inl e
            | Inr pathModificationTime \<Rightarrow>
                if pathModificationTime < mtime
                then jobs_loop env fs entries mtime uc paths
                       (currentJobNumber, skippedJobsCount + 1, jobs)
                else jobs_loop env fs entries mtime uc paths scheduled)
         else jobs_loop env fs entries mtime uc paths scheduled)"

text \<open>The jobs that \<open>addFromPaths(paths, useCorpus, ...)\<close> hands to the job processor.\<close>

definition addFromPaths_jobs ::
  "environment \<Rightarrow> 'p filesystem \<Rightarrow> 'p MetadataBundle \<Rightarrow> string list \<Rightarrow> bool
    \<Rightarrow> error + job list" where
  "addFromPaths_jobs env fs self paths uc =
     (case jobs_loop env fs (metadataEntries self)
             (metadataBundleModificationTime env fs self) uc paths (0, 0, []) of
        Inl e \<Rightarrow> Inl e
      | Inr (currentJobNumber, skippedJobsCount, jobs) \<Rightarrow> Inr jobs)"

subsection \<open>Auxiliary notions for the statements\<close>

text \<open>
  The mapping that the loop of \<open>_apply_set_operation\<close> builds over the keys \<open>K\<close>,
  starting from the mapping \<open>m\<close>.
\<close>

definition rehydrated ::
  "(string, 'v) dict \<Rightarrow> (string, 'v) dict \<Rightarrow> string set \<Rightarrow> (string \<Rightarrow> 'v option)
    \<Rightarrow> string \<Rightarrow> 'v option" where
  "rehydrated s t K m k =
     (if k \<in> K then (if k \<in> set (dict_keys s) then map_of s k else map_of t k) else m k)"

text \<open>
  The extension filter in the words of the specification: no filter is given, or the
  source path's extension is literally among \<open>fileExtensions\<close>, or a member of the
  filter is an xml-family extension and the source path carries a container extension.
  The extension of a path is its text from the last dot on, where no separator follows
  that dot; a member of the filter may name it with or without the dot.
\<close>

definition path_extension :: "string \<Rightarrow> string" where
  "path_extension path =
     (let tail = rev (takeWhile (\<lambda>c. c \<noteq> CHR ''.'') (rev path))
      in if CHR ''.'' \<in> set path \<and> CHR ''/'' \<notin> set tail then CHR ''.'' # tail else [])"

definition literal_extension_filter :: "string \<Rightarrow> string list option \<Rightarrow> bool" where
  "literal_extension_filter path fileExtensions =
     (case fileExtensions of
        None \<Rightarrow> True
      | Some exts \<Rightarrow>
          path_extension path \<in> set exts \<or> drop 1 (path_extension path) \<in> set exts \<or>
          ((\<exists>ext \<in> set exts. endswith ext ''xml'') \<and>
           (endswith path ''mxl'' \<or> endswith path ''mx'')))"

text \<open>
  What the loop of \<open>search\<close> asks of an entry before it copies it: a payload that
  matches the query, and a source path that passes the loop over the extensions.
\<close>

definition search_admits ::
  "('p \<Rightarrow> 'q \<Rightarrow> string option \<Rightarrow> bool) \<Rightarrow> 'q \<Rightarrow> string option \<Rightarrow> string list option
    \<Rightarrow> 'p MetadataEntry \<Rightarrow> bool" where
  "search_admits payload_search query field fileExtensions metadataEntry =
     (case metadataPayload metadataEntry of
        None \<Rightarrow> False
      | Some payload \<Rightarrow>
          payload_search payload query field \<and>
          (case fileExtensions of
             Some exts \<Rightarrow> extension_loop (sourcePath metadataEntry) exts
           | None \<Rightarrow> True))"

text \<open>
  The test under which the first loop of \<open>addFromPaths\<close> skips a path, on the path
  as the loop has rewritten it: its key is in the entries and does not start with
  \<open>'http'\<close>, and the last-change time of the path is less than the reference time.
\<close>

definition cache_hit ::
  "environment \<Rightarrow> 'p filesystem \<Rightarrow> (string, 'p MetadataEntry) dict \<Rightarrow> real \<Rightarrow> string \<Rightarrow> bool" where
  "cache_hit env fs entries mtime path1 =
     (corpusPathToKey env path1 None \<in> set (dict_keys entries) \<and>
      \<not> startswith (corpusPathToKey env path1 None) ''http'' \<and>
      (case os_path_getctime fs path1 of Inl e \<Rightarrow> False | Inr t \<Rightarrow> t < mtime))"

subsection \<open>Example data\<close>

text \<open>A POSIX platform, with the working directory \<open>/home/user\<close>.\<close>

definition posix_abspath :: "string \<Rightarrow> string" where
  "posix_abspath path = (if startswith path ''/'' then path else ''/home/user/'' @ path)"

definition posix_join :: "string \<Rightarrow> string \<Rightarrow> string" where
  "posix_join a b =
     (if startswith b ''/'' then b
      else if a = [] \<or> endswith a ''/'' then a @ b
      else a @ ''/'' @ b)"

definition posix_env :: environment where
  "posix_env =
     \<lparr>os_sep = CHR ''/'',
      os_path_abspath = posix_abspath,
      os_path_isabs = (\<lambda>path. startswith path ''/''),
      os_path_join = posix_join,
      getMetadataCacheFilePath = ''/music21/corpus/metadataCache'',
      getRootTempDir = ''/tmp/music21'',
      getCorpusFilePath = ''/music21/corpus'',
      time_time = 1000\<rparr>"

text \<open>
  Payloads are plain composer names in the examples, and a payload matches a query
  that occurs in it.
\<close>

definition composer_search :: "string \<Rightarrow> string \<Rightarrow> string option \<Rightarrow> bool" where
  "composer_search payload query field = str_contains payload query"

definition entry_bwv66 :: "string MetadataEntry" where
  "entry_bwv66 =
     \<lparr>object_id = 1, sourcePath = ''bach/bwv66.6.mxl'', number = None,
      metadataPayload = Some ''bach''\<rparr>"

definition entry_bwv7 :: "string MetadataEntry" where
  "entry_bwv7 =
     \<lparr>object_id = 2, sourcePath = ''bach/bwv7.7.krn'', number = None,
      metadataPayload = Some ''bach''\<rparr>"

definition entry_opus18 :: "string MetadataEntry" where
  "entry_opus18 =
     \<lparr>object_id = 3, sourcePath = ''beethoven/opus18no1.xml'', number = None,
      metadataPayload = Some ''beethoven''\<rparr>"

text \<open>A second entry object for the source of \<open>entry_bwv66\<close>, built after the file changed.\<close>

definition entry_bwv66_rebuilt :: "string MetadataEntry" where
  "entry_bwv66_rebuilt =
     \<lparr>object_id = 4, sourcePath = ''bach/bwv66.6.mxl'', number = None,
      metadataPayload = Some ''j.s. bach''\<rparr>"

definition entry_ciconia :: "string MetadataEntry" where
  "entry_ciconia =
     \<lparr>object_id = 5, sourcePath = ''ciconia/quod_jactatur.xml'', number = None,
      metadataPayload = Some ''ciconia''\<rparr>"

text \<open>Two works of one opus file, which no longer exists on the disk.\<close>

definition entry_opus_1 :: "string MetadataEntry" where
  "entry_opus_1 =
     \<lparr>object_id = 6, sourcePath = ''/home/user/scores/opus.xml'', number = Some 1,
      metadataPayload = Some ''anonymous''\<rparr>"

definition entry_opus_2 :: "string MetadataEntry" where
  "entry_opus_2 =
     \<lparr>object_id = 7, sourcePath = ''/home/user/scores/opus.xml'', number = Some 2,
      metadataPayload = Some ''anonymous''\<rparr>"

definition bachBundle :: "string MetadataBundle" where
  "bachBundle =
     \<lparr>name = None,
      metadataEntries = [(''bach_bwv66_6_mxl'', entry_bwv66), (''bach_bwv7_7_krn'', entry_bwv7)]\<rparr>"

definition beethovenBundle :: "string MetadataBundle" where
  "beethovenBundle =
     \<lparr>name = None, metadataEntries = [(''beethoven_opus18no1_xml'', entry_opus18)]\<rparr>"

definition coreBundle :: "string MetadataBundle" where
  "coreBundle =
     \<lparr>name = Some ''core'',
      metadataEntries =
        [(''bach_bwv66_6_mxl'', entry_bwv66), (''bach_bwv7_7_krn'', entry_bwv7),
         (''beethoven_opus18no1_xml'', entry_opus18)]\<rparr>"

definition rebuiltBundle :: "string MetadataBundle" where
  "rebuiltBundle =
     \<lparr>name = None, metadataEntries = [(''bach_bwv66_6_mxl'', entry_bwv66_rebuilt)]\<rparr>"

definition ciconiaBundle :: "string MetadataBundle" where
  "ciconiaBundle =
     \<lparr>name = None, metadataEntries = [(''ciconia_quod_jactatur_xml'', entry_ciconia)]\<rparr>"

definition opusBundle :: "string MetadataBundle" where
  "opusBundle =
     \<lparr>name = None,
      metadataEntries =
        [(''home_user_scores_opus_xml_1'', entry_opus_1),
         (''home_user_scores_opus_xml_2'', entry_opus_2)]\<rparr>"

text \<open>
  A disk on which the snapshot of the core bundle and the source of \<open>entry_bwv66\<close>
  have the same last-change time.
\<close>

definition disk_same_time :: "string filesystem" where
  "disk_same_time =
     [''/music21/corpus/metadataCache/core.json'' \<mapsto>
        \<lparr>ctime = 500, stored = metadataEntries coreBundle\<rparr>,
      ''/music21/corpus/bach/bwv66.6.mxl'' \<mapsto> \<lparr>ctime = 500, stored = []\<rparr>]"

text \<open>The same disk with the source changed (or not) after the snapshot was written.\<close>

definition disk_at :: "real \<Rightarrow> string filesystem" where
  "disk_at t =
     [''/music21/corpus/metadataCache/core.json'' \<mapsto>
        \<lparr>ctime = 500, stored = metadataEntries coreBundle\<rparr>,
      ''/music21/corpus/bach/bwv66.6.mxl'' \<mapsto> \<lparr>ctime = t, stored = []\<rparr>]"

section \<open>Properties\<close>

subsection \<open>Dictionaries and the loop of the set operations\<close>

lemma set_dict_keys: "set (dict_keys d) = dom (map_of d)"
  by (simp add: dict_keys_def dom_map_of_conv_image_fst)

lemma dict_getitem_present:
  "k \<in> set (dict_keys d) \<Longrightarrow> \<exists>v. map_of d k = Some v \<and> dict_getitem d k = Inr v"
  by (auto simp: set_dict_keys dict_getitem_def)

lemma wf_dict_update: "wf_dict d \<Longrightarrow> wf_dict (AList.update k v d)"
  by (simp add: wf_dict_def dict_keys_def distinct_update)

lemma wf_dict_length: "wf_dict d \<Longrightarrow> length d = card (set (dict_keys d))"
  unfolding wf_dict_def dict_keys_def using distinct_card [of "map fst d"] by simp

lemma rehydrate_step:
  assumes "key \<in> set (dict_keys s) \<union> set (dict_keys t)"
  shows "\<exists>v. (if key \<in> set (dict_keys s) then map_of s key else map_of t key) = Some v \<and>
             rehydrate s t (key # ks) r = rehydrate s t ks (AList.update key v r)"
proof (cases "key \<in> set (dict_keys s)")
  case True
  then show ?thesis using dict_getitem_present [of key s] by auto
next
  case False
  with assms have "key \<in> set (dict_keys t)" by simp
  then show ?thesis using False dict_getitem_present [of key t] by auto
qed

lemma rehydrate_ok:
  "set ks \<subseteq> set (dict_keys s) \<union> set (dict_keys t) \<Longrightarrow>
   \<exists>d. rehydrate s t ks r = Inr d \<and> map_of d = rehydrated s t (set ks) (map_of r) \<and>
       (wf_dict r \<longrightarrow> wf_dict d)"
proof (induction ks arbitrary: r)
  case Nil
  then show ?case by (simp add: rehydrated_def)
next
  case (Cons key ks)
  from Cons.prems have k: "key \<in> set (dict_keys s) \<union> set (dict_keys t)" by simp
  from Cons.prems have sub: "set ks \<subseteq> set (dict_keys s) \<union> set (dict_keys t)" by simp
  from rehydrate_step [OF k, of ks r] obtain v where
    v: "(if key \<in> set (dict_keys s) then map_of s key else map_of t key) = Some v"
    and step: "rehydrate s t (key # ks) r = rehydrate s t ks (AList.update key v r)"
    by (elim exE conjE)
  from Cons.IH [OF sub, of "AList.update key v r"] obtain d where
    d1: "rehydrate s t ks (AList.update key v r) = Inr d"
    and d2: "map_of d = rehydrated s t (set ks) (map_of (AList.update key v r))"
    and d3: "wf_dict (AList.update key v r) \<longrightarrow> wf_dict d"
    by (elim exE conjE)
  have m: "rehydrated s t (set ks) (map_of (AList.update key v r)) =
           rehydrated s t (set (key # ks)) (map_of r)"
    using v by (auto simp: rehydrated_def update_conv' fun_eq_iff)
  have w: "wf_dict r \<longrightarrow> wf_dict d"
    using d3 wf_dict_update [of r key v] by simp
  show ?case
    unfolding step using d1 d2 m w by simp
qed


lemma set_getattr_meaning:
  "set (set_getattr operator a b) = set_meaning operator (set a) (set b)"
  by (cases operator) auto

lemma set_meaning_subset: "set_meaning operator A B \<subseteq> A \<union> B"
  by (cases operator) auto

lemma apply_set_operation_ok:
  "\<exists>r. apply_set_operation self (BundleObj other) operator = Inr r \<and>
       name r = None \<and> wf_dict (metadataEntries r) \<and>
       map_of (metadataEntries r) =
         rehydrated (metadataEntries self) (metadataEntries other)
           (set_meaning operator (set (dict_keys (metadataEntries self)))
              (set (dict_keys (metadataEntries other)))) Map.empty"
proof -
  define ks where "ks = set_getattr operator (dict_keys (metadataEntries self))
                          (dict_keys (metadataEntries other))"
  have sub: "set ks \<subseteq> set (dict_keys (metadataEntries self)) \<union> set (dict_keys (metadataEntries other))"
    unfolding ks_def set_getattr_meaning by (rule set_meaning_subset)
  from rehydrate_ok [OF sub, of "[]"]
  have "\<exists>d. rehydrate (metadataEntries self) (metadataEntries other) ks [] = Inr d \<and>
          map_of d = rehydrated (metadataEntries self) (metadataEntries other) (set ks) Map.empty \<and>
          wf_dict d"
    by (simp add: wf_dict_def dict_keys_def)
  then obtain d where
    d1: "rehydrate (metadataEntries self) (metadataEntries other) ks [] = Inr d"
    and d2: "map_of d = rehydrated (metadataEntries self) (metadataEntries other) (set ks) Map.empty"
    and w: "wf_dict d"
    by (elim exE conjE)
  have "apply_set_operation self (BundleObj other) operator = Inr \<lparr>name = None, metadataEntries = d\<rparr>"
    using d1 by (simp add: apply_set_operation_def new_bundle_def Let_def ks_def)
  then show ?thesis
    using d2 w by (simp add: ks_def set_getattr_meaning)
qed

lemma rehydrated_dom:
  "K \<subseteq> set (dict_keys s) \<union> set (dict_keys t) \<Longrightarrow> dom (rehydrated s t K Map.empty) = K"
  by (auto simp: rehydrated_def set_dict_keys dom_def split: if_splits)

subsection \<open>The persisted file\<close>

lemma filePath_Some: "filePath env self = Some p \<Longrightarrow> \<exists>n. name self = Some n"
  by (cases "name self") (simp_all add: filePath_def)

lemma filePath_None_iff: "filePath env self = None \<longleftrightarrow> name self = None"
  by (cases "name self") (simp_all add: filePath_def)

lemma core_filePath:
  "name self = Some ''core'' \<Longrightarrow>
   filePath posix_env self = Some ''/music21/corpus/metadataCache/core.json''"
  by (simp add: filePath_def posix_env_def posix_join_def startswith_def endswith_def)

text \<open>
  C6. \<open>read\<close> raises the \<open>MetadataException\<close> exactly when no path is given and the
  bundle has no name, and it raises nothing else. Where a path \<open>p\<close> resolves (the
  argument, or without one the bundle's own file path) and no file exists there, the
  call returns the bundle unchanged; where a file exists there, the entries of the
  bundle are replaced by what the snapshot holds.
\<close>

theorem read_bundle_cases:
  "(read_bundle env fs self path = Inl MetadataException \<longleftrightarrow> path = None \<and> name self = None) \<and>
   (read_bundle env fs self path = Inl e \<longrightarrow> e = MetadataException) \<and>
   (path = Some p \<or> path = None \<and> filePath env self = Some p \<longrightarrow>
      (fs p = None \<longrightarrow> read_bundle env fs self path = Inr self) \<and>
      (fs p = Some f \<longrightarrow> read_bundle env fs self path = Inr (self\<lparr>metadataEntries := stored f\<rparr>)))"
  by (auto simp: read_bundle_def jsonRead_def os_path_exists_def filePath_None_iff
        split: option.splits dest: filePath_Some)

theorem read_bundle_cases_witness:
  "read_bundle posix_env Map.empty (bachBundle :: string MetadataBundle) None = Inl MetadataException \<and>
   read_bundle posix_env (Map.empty :: string filesystem) (new_bundle (Some ''core'')) None
     = Inr (new_bundle (Some ''core'')) \<and>
   read_bundle posix_env disk_same_time (new_bundle (Some ''core'')) None = Inr coreBundle"
proof -
  have "read_bundle posix_env Map.empty (bachBundle :: string MetadataBundle) None = Inl MetadataException"
    using read_bundle_cases [of posix_env Map.empty bachBundle None]
    by (simp add: bachBundle_def)
  moreover have "read_bundle posix_env (Map.empty :: string filesystem) (new_bundle (Some ''core'')) None
     = Inr (new_bundle (Some ''core''))"
    using read_bundle_cases [of posix_env Map.empty "new_bundle (Some ''core'')" None MetadataException
        "''/music21/corpus/metadataCache/core.json''", THEN conjunct2, THEN conjunct2]
    by (simp add: core_filePath new_bundle_def)
  moreover have "read_bundle posix_env disk_same_time (new_bundle (Some ''core'')) None = Inr coreBundle"
    using read_bundle_cases [of posix_env disk_same_time "new_bundle (Some ''core'')" None MetadataException
        "''/music21/corpus/metadataCache/core.json''"
        "\<lparr>ctime = 500, stored = metadataEntries coreBundle\<rparr>",
        THEN conjunct2, THEN conjunct2]
    by (simp add: core_filePath disk_same_time_def new_bundle_def coreBundle_def)
  ultimately show ?thesis by simp
qed

subsection \<open>Set algebra\<close>

text \<open>
  C8. Every set operation on two bundles returns a bundle without a name whose keys
  are the keys that the native set operation yields on the operands' key sets, and
  under each of them the entry of \<open>self\<close> where \<open>self\<close> holds the key, else the
  entry of the other operand. The methods \<open>union\<close>, \<open>intersection\<close>, \<open>difference\<close>,
  \<open>symmetric_difference\<close> and the operators \<open>&\<close>, \<open>|\<close>, \<open>-\<close>, \<open>^\<close> are the eight
  values of \<open>operator\<close>.
\<close>

theorem set_operation_result:
  "\<exists>r. apply_set_operation self (BundleObj other) operator = Inr r \<and>
       name r = None \<and>
       set (dict_keys (metadataEntries r)) =
         set_meaning operator (set (dict_keys (metadataEntries self)))
           (set (dict_keys (metadataEntries other))) \<and>
       (\<forall>key \<in> set (dict_keys (metadataEntries r)).
          dict_getitem (metadataEntries r) key =
            (if key \<in> set (dict_keys (metadataEntries self))
             then dict_getitem (metadataEntries self) key
             else dict_getitem (metadataEntries other) key))"
proof -
  define K where "K = set_meaning operator (set (dict_keys (metadataEntries self)))
                        (set (dict_keys (metadataEntries other)))"
  from apply_set_operation_ok [of self other operator] obtain r where
    r1: "apply_set_operation self (BundleObj other) operator = Inr r"
    and r2: "name r = None"
    and r3: "map_of (metadataEntries r) =
               rehydrated (metadataEntries self) (metadataEntries other) K Map.empty"
    unfolding K_def by (elim exE conjE)
  have "dom (map_of (metadataEntries r)) = K"
    unfolding r3 K_def by (rule rehydrated_dom) (rule set_meaning_subset)
  then have keys: "set (dict_keys (metadataEntries r)) = K"
    by (simp add: set_dict_keys [of "metadataEntries r"])
  have items: "dict_getitem (metadataEntries r) key =
            (if key \<in> set (dict_keys (metadataEntries self))
             then dict_getitem (metadataEntries self) key
             else dict_getitem (metadataEntries other) key)" if "key \<in> K" for key
    using that by (simp add: dict_getitem_def r3 rehydrated_def)
  show ?thesis
    using r1 r2 keys items unfolding K_def by simp
qed

theorem set_operation_result_witness:
  "\<exists>r. apply_set_operation bachBundle (BundleObj rebuiltBundle) SetUnion = Inr r \<and>
       name r = None \<and>
       set (dict_keys (metadataEntries r)) = {''bach_bwv66_6_mxl'', ''bach_bwv7_7_krn''} \<and>
       dict_getitem (metadataEntries r) ''bach_bwv66_6_mxl'' = Inr entry_bwv66 \<and>
       dict_getitem (metadataEntries r) ''bach_bwv7_7_krn'' = Inr entry_bwv7"
proof -
  from set_operation_result [of bachBundle rebuiltBundle SetUnion] obtain r where
    r1: "apply_set_operation bachBundle (BundleObj rebuiltBundle) SetUnion = Inr r"
    and r2: "name r = None"
    and r3: "set (dict_keys (metadataEntries r)) =
               set_meaning SetUnion (set (dict_keys (metadataEntries bachBundle)))
                 (set (dict_keys (metadataEntries rebuiltBundle)))"
    and r4: "\<forall>key \<in> set (dict_keys (metadataEntries r)).
          dict_getitem (metadataEntries r) key =
            (if key \<in> set (dict_keys (metadataEntries bachBundle))
             then dict_getitem (metadataEntries bachBundle) key
             else dict_getitem (metadataEntries rebuiltBundle) key)"
    by (elim exE conjE)
  have keys: "set (dict_keys (metadataEntries r)) = {''bach_bwv66_6_mxl'', ''bach_bwv7_7_krn''}"
    unfolding r3 by (simp add: bachBundle_def rebuiltBundle_def dict_keys_def)
  have "dict_getitem (metadataEntries r) ''bach_bwv66_6_mxl'' = Inr entry_bwv66"
    using r4 [rule_format, of "''bach_bwv66_6_mxl''"] unfolding keys
    by (simp add: bachBundle_def dict_keys_def dict_getitem_def)
  moreover have "dict_getitem (metadataEntries r) ''bach_bwv7_7_krn'' = Inr entry_bwv7"
    using r4 [rule_format, of "''bach_bwv7_7_krn''"] unfolding keys
    by (simp add: bachBundle_def dict_keys_def dict_getitem_def)
  ultimately show ?thesis using r1 r2 keys by simp
qed

subsection \<open>Comparisons\<close>

lemma set_issubset_iff: "set_issubset a b \<longleftrightarrow> set a \<subseteq> set b"
  by (auto simp: set_issubset_def list_all_iff)

lemma strict_subset_by_size:
  assumes "distinct a" "distinct b"
  shows "length a < length b \<and> set_issubset a b \<longleftrightarrow> set a \<subset> set b"
proof -
  have la: "length a = card (set a)" and lb: "length b = card (set b)"
    using assms by (simp_all add: distinct_card)
  show ?thesis
  proof
    assume "length a < length b \<and> set_issubset a b"
    then show "set a \<subset> set b" unfolding la lb set_issubset_iff by auto
  next
    assume "set a \<subset> set b"
    then show "length a < length b \<and> set_issubset a b"
      unfolding la lb set_issubset_iff by (simp add: psubset_card_mono psubset_imp_subset)
  qed
qed

lemma dict_eq_iff:
  assumes "wf_dict d1" "wf_dict d2"
  shows "dict_eq d1 d2 \<longleftrightarrow> map_of d1 = map_of d2"
proof
  assume eq: "dict_eq d1 d2"
  then have len: "length d1 = length d2"
    and items: "\<And>k v. (k, v) \<in> set d1 \<Longrightarrow> map_of d2 k = Some v"
    by (auto simp: dict_eq_def list_all_iff)
  have sub: "dom (map_of d1) \<subseteq> dom (map_of d2)"
    using items by (auto dest!: map_of_SomeD)
  have "card (dom (map_of d1)) = card (dom (map_of d2))"
    using assms len wf_dict_length [of d1] wf_dict_length [of d2] by (simp add: set_dict_keys)
  then have doms: "dom (map_of d1) = dom (map_of d2)"
    using sub by (simp add: card_subset_eq finite_dom_map_of)
  show "map_of d1 = map_of d2"
  proof
    fix k
    show "map_of d1 k = map_of d2 k"
    proof (cases "map_of d1 k")
      case None
      then show ?thesis using doms by (metis domIff)
    next
      case (Some v)
      then show ?thesis using items [of k v] by (simp add: map_of_SomeD)
    qed
  qed
next
  assume eq: "map_of d1 = map_of d2"
  then have "set (dict_keys d1) = set (dict_keys d2)" by (simp add: set_dict_keys)
  then have "length d1 = length d2"
    using assms wf_dict_length [of d1] wf_dict_length [of d2] by simp
  moreover have "map_of d2 k = Some v" if "(k, v) \<in> set d1" for k v
    using that assms(1) eq [symmetric] by (simp add: wf_dict_def dict_keys_def)
  ultimately show "dict_eq d1 d2"
    by (auto simp: dict_eq_def list_all_iff)
qed


lemma disjoint_not_psubset: "X \<inter> Y = {} \<Longrightarrow> X \<noteq> {} \<Longrightarrow> \<not> X \<subset> Y"
  by blast

lemma eq_bundle_disjoint:
  assumes "set (dict_keys (metadataEntries A)) \<inter> set (dict_keys (metadataEntries B)) = {}"
    and "set (dict_keys (metadataEntries A)) \<noteq> {}"
  shows "\<not> eq_bundle A (BundleObj B)"
proof
  assume "eq_bundle A (BundleObj B)"
  then have items: "\<And>k v. (k, v) \<in> set (metadataEntries A) \<Longrightarrow> map_of (metadataEntries B) k = Some v"
    by (auto simp: eq_bundle_def dict_eq_def list_all_iff split: if_splits)
  from assms(2) obtain k v where kv: "(k, v) \<in> set (metadataEntries A)"
    by (cases "metadataEntries A") (auto simp: dict_keys_def)
  then have "k \<in> set (dict_keys (metadataEntries A))"
    by (force simp: dict_keys_def)
  moreover have "k \<in> set (dict_keys (metadataEntries B))"
    using items [OF kv] by (auto simp: set_dict_keys)
  ultimately show False using assms(1) by blast
qed

text \<open>
  C9. On bundles with well-formed dictionaries, \<open><\<close> is the proper-subset test on
  the key sets, \<open><=\<close> the subset test, and \<open>>\<close>, \<open>>=\<close> the same tests with the
  operands exchanged. For two bundles with disjoint, non-empty key sets none of \<open><\<close>,
  \<open>>\<close> and \<open>==\<close> holds.
\<close>

theorem comparisons_by_key_sets:
  assumes "wf_dict (metadataEntries A)" and "wf_dict (metadataEntries B)"
  shows
    "lt_bundle A (BundleObj B) =
       Inr (set (dict_keys (metadataEntries A)) \<subset> set (dict_keys (metadataEntries B))) \<and>
     le_bundle A (BundleObj B) =
       Inr (set (dict_keys (metadataEntries A)) \<subseteq> set (dict_keys (metadataEntries B))) \<and>
     gt_bundle A (BundleObj B) =
       Inr (set (dict_keys (metadataEntries B)) \<subset> set (dict_keys (metadataEntries A))) \<and>
     ge_bundle A (BundleObj B) =
       Inr (set (dict_keys (metadataEntries B)) \<subseteq> set (dict_keys (metadataEntries A))) \<and>
     (set (dict_keys (metadataEntries A)) \<inter> set (dict_keys (metadataEntries B)) = {} \<and>
      set (dict_keys (metadataEntries A)) \<noteq> {} \<and> set (dict_keys (metadataEntries B)) \<noteq> {} \<longrightarrow>
        lt_bundle A (BundleObj B) = Inr False \<and> gt_bundle A (BundleObj B) = Inr False \<and>
        \<not> eq_bundle A (BundleObj B))"
proof -
  have dA: "distinct (dict_keys (metadataEntries A))" and dB: "distinct (dict_keys (metadataEntries B))"
    using assms by (simp_all add: wf_dict_def)
  have lt: "lt_bundle A (BundleObj B) =
       Inr (set (dict_keys (metadataEntries A)) \<subset> set (dict_keys (metadataEntries B)))"
    using strict_subset_by_size [OF dA dB]
    by (simp add: lt_bundle_def apply_set_predicate_def)
  have gt: "gt_bundle A (BundleObj B) =
       Inr (set (dict_keys (metadataEntries B)) \<subset> set (dict_keys (metadataEntries A)))"
    using strict_subset_by_size [OF dB dA]
    by (simp add: gt_bundle_def apply_set_predicate_def)
  have le: "le_bundle A (BundleObj B) =
       Inr (set (dict_keys (metadataEntries A)) \<subseteq> set (dict_keys (metadataEntries B)))"
    by (simp add: le_bundle_def apply_set_predicate_def set_issubset_iff)
  have ge: "ge_bundle A (BundleObj B) =
       Inr (set (dict_keys (metadataEntries B)) \<subseteq> set (dict_keys (metadataEntries A)))"
    by (simp add: ge_bundle_def apply_set_predicate_def set_issubset_iff)
  have disj: "lt_bundle A (BundleObj B) = Inr False \<and> gt_bundle A (BundleObj B) = Inr False \<and>
        \<not> eq_bundle A (BundleObj B)"
    if "set (dict_keys (metadataEntries A)) \<inter> set (dict_keys (metadataEntries B)) = {}"
      and "set (dict_keys (metadataEntries A)) \<noteq> {}"
      and "set (dict_keys (metadataEntries B)) \<noteq> {}"
  proof -
    have "\<not> set (dict_keys (metadataEntries A)) \<subset> set (dict_keys (metadataEntries B))"
      using that(1,2) by (rule disjoint_not_psubset)
    moreover have "\<not> set (dict_keys (metadataEntries B)) \<subset> set (dict_keys (metadataEntries A))"
      using that(1,3) by (intro disjoint_not_psubset) (simp_all add: Int_commute)
    ultimately show ?thesis
      using eq_bundle_disjoint [OF that(1,2)] by (simp add: lt gt)
  qed
  show ?thesis
  proof (intro conjI impI)
    assume "set (dict_keys (metadataEntries A)) \<inter> set (dict_keys (metadataEntries B)) = {} \<and>
      set (dict_keys (metadataEntries A)) \<noteq> {} \<and> set (dict_keys (metadataEntries B)) \<noteq> {}"
    then have "lt_bundle A (BundleObj B) = Inr False \<and> gt_bundle A (BundleObj B) = Inr False \<and>
        \<not> eq_bundle A (BundleObj B)"
      using disj by simp
    then show "lt_bundle A (BundleObj B) = Inr False" and "gt_bundle A (BundleObj B) = Inr False"
      and "\<not> eq_bundle A (BundleObj B)"
      by simp_all
  qed (rule lt le gt ge)+
qed

theorem comparisons_by_key_sets_witness:
  "wf_dict (metadataEntries bachBundle) \<and> wf_dict (metadataEntries beethovenBundle) \<and>
   set (dict_keys (metadataEntries bachBundle)) \<inter> set (dict_keys (metadataEntries beethovenBundle)) = {} \<and>
   set (dict_keys (metadataEntries bachBundle)) \<noteq> {} \<and>
   set (dict_keys (metadataEntries beethovenBundle)) \<noteq> {} \<and>
   lt_bundle bachBundle (BundleObj beethovenBundle) = Inr False \<and>
   gt_bundle bachBundle (BundleObj beethovenBundle) = Inr False \<and>
   \<not> eq_bundle bachBundle (BundleObj beethovenBundle)"
proof -
  have w: "wf_dict (metadataEntries bachBundle)" "wf_dict (metadataEntries beethovenBundle)"
    by (simp_all add: wf_dict_def dict_keys_def bachBundle_def beethovenBundle_def)
  have d: "set (dict_keys (metadataEntries bachBundle)) \<inter> set (dict_keys (metadataEntries beethovenBundle)) = {}"
    "set (dict_keys (metadataEntries bachBundle)) \<noteq> {}"
    "set (dict_keys (metadataEntries beethovenBundle)) \<noteq> {}"
    by (simp_all add: dict_keys_def bachBundle_def beethovenBundle_def)
  have "lt_bundle bachBundle (BundleObj beethovenBundle) = Inr False \<and>
   gt_bundle bachBundle (BundleObj beethovenBundle) = Inr False \<and>
   \<not> eq_bundle bachBundle (BundleObj beethovenBundle)"
    using comparisons_by_key_sets [OF w, THEN conjunct2, THEN conjunct2, THEN conjunct2,
        THEN conjunct2] d
    by simp
  then show ?thesis using w d by simp
qed

subsection \<open>Laws of union and intersection\<close>

lemma union_bundle_ok:
  "\<exists>r. union_bundle A (BundleObj B) = Inr r \<and> wf_dict (metadataEntries r) \<and>
       map_of (metadataEntries r) =
         rehydrated (metadataEntries A) (metadataEntries B)
           (set (dict_keys (metadataEntries A)) \<union> set (dict_keys (metadataEntries B))) Map.empty"
  using apply_set_operation_ok [of A B SetUnion] by (auto simp: union_bundle_def)

lemma intersection_bundle_ok:
  "\<exists>r. intersection_bundle A (BundleObj B) = Inr r \<and> wf_dict (metadataEntries r) \<and>
       map_of (metadataEntries r) =
         rehydrated (metadataEntries A) (metadataEntries B)
           (set (dict_keys (metadataEntries A)) \<inter> set (dict_keys (metadataEntries B))) Map.empty"
  using apply_set_operation_ok [of A B SetIntersection] by (auto simp: intersection_bundle_def)

lemma eq_bundle_iff:
  "wf_dict (metadataEntries A) \<Longrightarrow> wf_dict (metadataEntries B) \<Longrightarrow>
   eq_bundle A (BundleObj B) \<longleftrightarrow> map_of (metadataEntries A) = map_of (metadataEntries B)"
  by (simp add: eq_bundle_def dict_eq_iff)

lemma rehydrated_union_again:
  assumes "m = rehydrated s t (set (dict_keys s) \<union> set (dict_keys t)) Map.empty"
    and "set (dict_keys u) = set (dict_keys s) \<union> set (dict_keys t)" and "map_of u = m"
  shows "rehydrated u t (set (dict_keys u) \<union> set (dict_keys t)) Map.empty = m"
proof
  fix k
  show "rehydrated u t (set (dict_keys u) \<union> set (dict_keys t)) Map.empty k = m k"
    using assms(2,3) by (auto simp: rehydrated_def assms(1) set_dict_keys dom_def)
qed

lemma rehydrated_inter_eq_iff:
  "rehydrated s t (set (dict_keys s) \<inter> set (dict_keys t)) Map.empty =
   rehydrated t s (set (dict_keys t) \<inter> set (dict_keys s)) Map.empty \<longleftrightarrow>
   (\<forall>k \<in> set (dict_keys s) \<inter> set (dict_keys t). dict_getitem s k = dict_getitem t k)"
proof -
  have "rehydrated s t (set (dict_keys s) \<inter> set (dict_keys t)) Map.empty k =
        rehydrated t s (set (dict_keys t) \<inter> set (dict_keys s)) Map.empty k \<longleftrightarrow>
        (k \<in> set (dict_keys s) \<inter> set (dict_keys t) \<longrightarrow> dict_getitem s k = dict_getitem t k)" for k
    by (auto simp: rehydrated_def dict_getitem_def set_dict_keys split: option.splits)
  then show ?thesis by (auto simp: fun_eq_iff)
qed

text \<open>
  C4, the claim as stated fails: \<open>A.intersection(B) == B.intersection(A)\<close> is false
  for two bundles that hold different entries under a common key, since each
  intersection takes its entries from its own left operand. Here the second bundle
  holds the entry that was rebuilt from the same source.
\<close>

theorem intersection_commutativity_counterexample:
  "intersection_bundle bachBundle (BundleObj rebuiltBundle) =
     Inr \<lparr>name = None, metadataEntries = [(''bach_bwv66_6_mxl'', entry_bwv66)]\<rparr> \<and>
   intersection_bundle rebuiltBundle (BundleObj bachBundle) =
     Inr \<lparr>name = None, metadataEntries = [(''bach_bwv66_6_mxl'', entry_bwv66_rebuilt)]\<rparr> \<and>
   \<not> eq_bundle \<lparr>name = None, metadataEntries = [(''bach_bwv66_6_mxl'', entry_bwv66)]\<rparr>
       (BundleObj \<lparr>name = None, metadataEntries = [(''bach_bwv66_6_mxl'', entry_bwv66_rebuilt)]\<rparr>)"
  by (simp add: intersection_bundle_def apply_set_operation_def bachBundle_def rebuiltBundle_def
        dict_keys_def dict_getitem_def new_bundle_def eq_bundle_def dict_eq_def
        entry_bwv66_def entry_bwv66_rebuilt_def)

text \<open>
  C4, amended. For all bundles \<open>A\<close> and \<open>B\<close> with well-formed dictionaries:
  \<open>A.union(B).union(B) == A.union(B)\<close>; \<open>A.intersection(B)\<close> and
  \<open>B.intersection(A)\<close> have the same keys, and they are equal exactly when \<open>A\<close> and
  \<open>B\<close> hold the same entry under every key they share; and
  \<open>len(A.union(B)) == len(A) + len(B) - len(A.intersection(B))\<close>.
\<close>

theorem union_intersection_laws:
  assumes "wf_dict (metadataEntries A)" and "wf_dict (metadataEntries B)"
  shows "\<exists>ab abb iab iba.
     union_bundle A (BundleObj B) = Inr ab \<and> union_bundle ab (BundleObj B) = Inr abb \<and>
     eq_bundle abb (BundleObj ab) \<and>
     intersection_bundle A (BundleObj B) = Inr iab \<and>
     intersection_bundle B (BundleObj A) = Inr iba \<and>
     set (dict_keys (metadataEntries iab)) = set (dict_keys (metadataEntries iba)) \<and>
     (eq_bundle iab (BundleObj iba) \<longleftrightarrow>
        (\<forall>k \<in> set (dict_keys (metadataEntries A)) \<inter> set (dict_keys (metadataEntries B)).
           dict_getitem (metadataEntries A) k = dict_getitem (metadataEntries B) k)) \<and>
     int (len_bundle ab) = int (len_bundle A) + int (len_bundle B) - int (len_bundle iab)"
proof -
  define KA where "KA = set (dict_keys (metadataEntries A))"
  define KB where "KB = set (dict_keys (metadataEntries B))"
  from union_bundle_ok [of A B] obtain ab where
    ab1: "union_bundle A (BundleObj B) = Inr ab" and ab2: "wf_dict (metadataEntries ab)"
    and ab3: "map_of (metadataEntries ab) =
                rehydrated (metadataEntries A) (metadataEntries B) (KA \<union> KB) Map.empty"
    unfolding KA_def KB_def by (elim exE conjE)
  have kab: "set (dict_keys (metadataEntries ab)) = KA \<union> KB"
    unfolding set_dict_keys [of "metadataEntries ab"] ab3 KA_def KB_def
    by (rule rehydrated_dom) simp
  from union_bundle_ok [of ab B] obtain abb where
    abb1: "union_bundle ab (BundleObj B) = Inr abb" and abb2: "wf_dict (metadataEntries abb)"
    and abb3: "map_of (metadataEntries abb) =
                rehydrated (metadataEntries ab) (metadataEntries B)
                  (set (dict_keys (metadataEntries ab)) \<union> KB) Map.empty"
    unfolding KB_def by (elim exE conjE)
  have "map_of (metadataEntries abb) = map_of (metadataEntries ab)"
    unfolding abb3 KB_def
    by (rule rehydrated_union_again [OF ab3 [unfolded KA_def KB_def] kab [unfolded KA_def KB_def] refl])
  then have idem: "eq_bundle abb (BundleObj ab)"
    using abb2 ab2 by (simp add: eq_bundle_iff)
  from intersection_bundle_ok [of A B] obtain iab where
    iab1: "intersection_bundle A (BundleObj B) = Inr iab" and iab2: "wf_dict (metadataEntries iab)"
    and iab3: "map_of (metadataEntries iab) =
                rehydrated (metadataEntries A) (metadataEntries B) (KA \<inter> KB) Map.empty"
    unfolding KA_def KB_def by (elim exE conjE)
  from intersection_bundle_ok [of B A] obtain iba where
    iba1: "intersection_bundle B (BundleObj A) = Inr iba" and iba2: "wf_dict (metadataEntries iba)"
    and iba3: "map_of (metadataEntries iba) =
                rehydrated (metadataEntries B) (metadataEntries A) (KB \<inter> KA) Map.empty"
    unfolding KA_def KB_def by (elim exE conjE)
  have kiab: "set (dict_keys (metadataEntries iab)) = KA \<inter> KB"
    unfolding set_dict_keys [of "metadataEntries iab"] iab3 KA_def KB_def
    by (rule rehydrated_dom) blast
  have kiba: "set (dict_keys (metadataEntries iba)) = KB \<inter> KA"
    unfolding set_dict_keys [of "metadataEntries iba"] iba3 KA_def KB_def
    by (rule rehydrated_dom) blast
  have keys: "set (dict_keys (metadataEntries iab)) = set (dict_keys (metadataEntries iba))"
    unfolding kiab kiba by (rule Int_commute)
  have comm: "eq_bundle iab (BundleObj iba) \<longleftrightarrow>
        (\<forall>k \<in> set (dict_keys (metadataEntries A)) \<inter> set (dict_keys (metadataEntries B)).
           dict_getitem (metadataEntries A) k = dict_getitem (metadataEntries B) k)"
    unfolding eq_bundle_iff [OF iab2 iba2] iab3 iba3 KA_def KB_def
    by (rule rehydrated_inter_eq_iff)
  have fin: "finite KA" "finite KB" by (simp_all add: KA_def KB_def)
  have "card (KA \<union> KB) + card (KA \<inter> KB) = card KA + card KB"
    using fin by (rule card_Un_Int [symmetric])
  moreover have "len_bundle ab = card (KA \<union> KB)"
    using wf_dict_length [OF ab2] kab by (simp add: len_bundle_def)
  moreover have "len_bundle iab = card (KA \<inter> KB)"
    using wf_dict_length [OF iab2] kiab by (simp add: len_bundle_def)
  moreover have "len_bundle A = card KA"
    using wf_dict_length [OF assms(1)] by (simp add: len_bundle_def KA_def)
  moreover have "len_bundle B = card KB"
    using wf_dict_length [OF assms(2)] by (simp add: len_bundle_def KB_def)
  ultimately have count:
    "int (len_bundle ab) = int (len_bundle A) + int (len_bundle B) - int (len_bundle iab)"
    by simp
  show ?thesis
    using ab1 abb1 idem iab1 iba1 keys comm count by (intro exI conjI)
qed

theorem union_intersection_laws_witness:
  "wf_dict (metadataEntries bachBundle) \<and> wf_dict (metadataEntries coreBundle) \<and>
   (\<exists>ab abb iab iba.
     union_bundle bachBundle (BundleObj coreBundle) = Inr ab \<and>
     union_bundle ab (BundleObj coreBundle) = Inr abb \<and>
     eq_bundle abb (BundleObj ab) \<and>
     intersection_bundle bachBundle (BundleObj coreBundle) = Inr iab \<and>
     intersection_bundle coreBundle (BundleObj bachBundle) = Inr iba \<and>
     eq_bundle iab (BundleObj iba) \<and>
     int (len_bundle ab) = 2 + 3 - int (len_bundle iab))"
proof -
  have w: "wf_dict (metadataEntries bachBundle)" "wf_dict (metadataEntries coreBundle)"
    by (simp_all add: wf_dict_def dict_keys_def bachBundle_def coreBundle_def)
  have agree: "\<forall>k \<in> set (dict_keys (metadataEntries bachBundle)) \<inter> set (dict_keys (metadataEntries coreBundle)).
           dict_getitem (metadataEntries bachBundle) k = dict_getitem (metadataEntries coreBundle) k"
    by (simp add: dict_keys_def bachBundle_def coreBundle_def dict_getitem_def)
  have len: "int (len_bundle bachBundle) = 2" "int (len_bundle coreBundle) = 3"
    by (simp_all add: len_bundle_def bachBundle_def coreBundle_def)
  from union_intersection_laws [OF w] obtain ab abb iab iba where
    "union_bundle bachBundle (BundleObj coreBundle) = Inr ab"
    "union_bundle ab (BundleObj coreBundle) = Inr abb"
    "eq_bundle abb (BundleObj ab)"
    "intersection_bundle bachBundle (BundleObj coreBundle) = Inr iab"
    "intersection_bundle coreBundle (BundleObj bachBundle) = Inr iba"
    "eq_bundle iab (BundleObj iba) \<longleftrightarrow>
        (\<forall>k \<in> set (dict_keys (metadataEntries bachBundle)) \<inter> set (dict_keys (metadataEntries coreBundle)).
           dict_getitem (metadataEntries bachBundle) k = dict_getitem (metadataEntries coreBundle) k)"
    "int (len_bundle ab) = int (len_bundle bachBundle) + int (len_bundle coreBundle) - int (len_bundle iab)"
    by (elim exE conjE)
  then have "\<exists>ab abb iab iba.
     union_bundle bachBundle (BundleObj coreBundle) = Inr ab \<and>
     union_bundle ab (BundleObj coreBundle) = Inr abb \<and>
     eq_bundle abb (BundleObj ab) \<and>
     intersection_bundle bachBundle (BundleObj coreBundle) = Inr iab \<and>
     intersection_bundle coreBundle (BundleObj bachBundle) = Inr iba \<and>
     eq_bundle iab (BundleObj iba) \<and>
     int (len_bundle ab) = 2 + 3 - int (len_bundle iab)"
    using agree len by (intro exI [of _ ab] exI [of _ abb] exI [of _ iab] exI [of _ iba]) simp
  then show ?thesis using w by simp
qed

subsection \<open>Search\<close>

lemma extension_loop_iff:
  "extension_loop path exts \<longleftrightarrow>
     (\<exists>ext \<in> set exts. endswith path ext \<or>
        (endswith ext ''xml'' \<and> (endswith path ''mxl'' \<or> endswith path ''mx'')))"
  by (induction exts) auto

lemma search_loop_step:
  "search_loop ps q f exts ((key, e) # items) r =
     search_loop ps q f exts items
       (if search_admits ps q f exts e \<and> key \<notin> set (dict_keys r) then AList.update key e r else r)"
  by (simp add: search_admits_def Let_def split: option.splits)

lemma search_loop_map:
  "distinct (map fst items) \<Longrightarrow>
   map_of (search_loop ps q f exts items r) k =
     (case map_of r k of
        Some v \<Rightarrow> Some v
      | None \<Rightarrow> (case map_of items k of
                   None \<Rightarrow> None
                 | Some e \<Rightarrow> if search_admits ps q f exts e then Some e else None))"
proof (induction items arbitrary: r)
  case Nil
  then show ?case by (simp split: option.splits)
next
  case (Cons item items)
  obtain key e where item: "item = (key, e)" by (cases item)
  from Cons.prems have d: "distinct (map fst items)" and fresh: "map_of items key = None"
    by (auto simp: item map_of_eq_None_iff)
  define r' where "r' = (if search_admits ps q f exts e \<and> key \<notin> set (dict_keys r)
                          then AList.update key e r else r)"
  have step: "search_loop ps q f exts (item # items) r = search_loop ps q f exts items r'"
    unfolding item r'_def by (rule search_loop_step)
  have r'k: "map_of r' k =
      (if k = key \<and> search_admits ps q f exts e \<and> map_of r key = None then Some e else map_of r k)"
    by (auto simp: r'_def update_conv' set_dict_keys dom_def)
  have "map_of (search_loop ps q f exts (item # items) r) k =
          (case map_of r' k of
             Some v \<Rightarrow> Some v
           | None \<Rightarrow> (case map_of items k of
                        None \<Rightarrow> None
                      | Some e \<Rightarrow> if search_admits ps q f exts e then Some e else None))"
    by (simp only: step Cons.IH [OF d])
  also have "\<dots> =
          (case map_of r k of
             Some v \<Rightarrow> Some v
           | None \<Rightarrow> (case map_of (item # items) k of
                        None \<Rightarrow> None
                      | Some e \<Rightarrow> if search_admits ps q f exts e then Some e else None))"
    unfolding r'k using fresh by (cases "k = key") (simp_all add: item split: option.splits)
  finally show ?case .
qed

lemma search_loop_wf: "wf_dict r \<Longrightarrow> wf_dict (search_loop ps q f exts items r)"
proof (induction items arbitrary: r)
  case Nil
  then show ?case by simp
next
  case (Cons item items)
  obtain key e where item: "item = (key, e)" by (cases item)
  have "wf_dict (if search_admits ps q f exts e \<and> key \<notin> set (dict_keys r)
                 then AList.update key e r else r)"
    by (simp add: Cons.prems wf_dict_update)
  then show ?case
    by (simp only: item search_loop_step Cons.IH)
qed

lemma endswith_iff: "endswith s p \<longleftrightarrow> (\<exists>zs. s = zs @ p)"
proof
  assume "endswith s p"
  then have "s = take (length s - length p) s @ p"
    by (metis append_take_drop_id endswith_def)
  then show "\<exists>zs. s = zs @ p" ..
next
  assume "\<exists>zs. s = zs @ p"
  then show "endswith s p" by (auto simp: endswith_def)
qed

lemma endswith_last: "endswith s p \<Longrightarrow> p \<noteq> [] \<Longrightarrow> last s = last p"
  by (auto simp: endswith_iff)

lemma endswith_shorter: "endswith s (p @ q) \<Longrightarrow> endswith s q"
  by (auto simp: endswith_iff)


lemma search_map:
  assumes "wf_dict (metadataEntries self)"
  shows "map_of (metadataEntries (search ps self q f exts)) key =
           (case map_of (metadataEntries self) key of
              None \<Rightarrow> None
            | Some e \<Rightarrow> if search_admits ps q f exts e then Some e else None)"
  using assms search_loop_map [of "metadataEntries self" ps q f exts "[]" key]
  by (simp add: search_def new_bundle_def wf_dict_def dict_keys_def)

lemma search_admits_iff:
  "search_admits ps q f exts e \<longleftrightarrow>
     (\<exists>p. metadataPayload e = Some p \<and> ps p q f) \<and>
     (exts = None \<or>
      (\<exists>es. exts = Some es \<and>
         (\<exists>ext \<in> set es. endswith (sourcePath e) ext \<or>
            (endswith ext ''xml'' \<and>
             (endswith (sourcePath e) ''mxl'' \<or> endswith (sourcePath e) ''mx'')))))"
  by (cases "metadataPayload e"; cases exts) (simp_all add: search_admits_def extension_loop_iff)

lemma xml_filter_mxl: "endswith path ''.mxl'' \<Longrightarrow> extension_loop path [''.xml'']"
proof -
  assume "endswith path ''.mxl''"
  then have "endswith path ''mxl''"
    using endswith_shorter [of path "''.''" "''mxl''"] by simp
  moreover have "endswith ''.xml'' ''xml''" by (simp add: endswith_def)
  ultimately show ?thesis by simp
qed

lemma xml_filter_krn: "endswith path ''.krn'' \<Longrightarrow> \<not> extension_loop path [''.xml'']"
proof -
  assume "endswith path ''.krn''"
  then have l: "last path = CHR ''n''" using endswith_last [of path "''.krn''"] by simp
  have "\<not> endswith path ''.xml''" using endswith_last [of path "''.xml''"] l by auto
  moreover have "\<not> endswith path ''mxl''" using endswith_last [of path "''mxl''"] l by auto
  moreover have "\<not> endswith path ''mx''" using endswith_last [of path "''mx''"] l by auto
  ultimately show ?thesis by simp
qed

lemma admits_xml_mxl:
  "metadataPayload e = Some p \<Longrightarrow> ps p q f \<Longrightarrow> endswith (sourcePath e) ''.mxl'' \<Longrightarrow>
   search_admits ps q f (Some [''.xml'']) e"
  using xml_filter_mxl [of "sourcePath e"]
  by (simp add: search_admits_def del: extension_loop.simps)

lemma admits_xml_krn:
  "endswith (sourcePath e) ''.krn'' \<Longrightarrow> \<not> search_admits ps q f (Some [''.xml'']) e"
  using xml_filter_krn [of "sourcePath e"]
  by (simp add: search_admits_def del: extension_loop.simps split: option.splits)

lemma ciconia_extension: "path_extension ''ciconia/quod_jactatur.xml'' = ''.xml''"
  by (simp add: path_extension_def)

text \<open>
  C5, the claim as stated fails on the extension filter. The loop tests whether the
  source path ends with a member of \<open>fileExtensions\<close>; the member need not be the
  extension of the path. With the members \<open>'.'\<close>, \<open>'x'\<close>, \<open>'m'\<close>, \<open>'l'\<close> (what the
  doctest of \<open>search\<close> passes: the string \<open>'.xml'\<close>, iterated) the entry of
  \<open>ciconia/quod_jactatur.xml\<close> is in the result, although its extension is none of
  the members and no member is of the xml family.
\<close>

theorem search_extension_counterexample:
  "map_of (metadataEntries (search composer_search ciconiaBundle ''cicon'' (Some ''composer'')
             (Some [''.'', ''x'', ''m'', ''l'']))) ''ciconia_quod_jactatur_xml'' = Some entry_ciconia \<and>
   \<not> literal_extension_filter (sourcePath entry_ciconia) (Some [''.'', ''x'', ''m'', ''l''])"
proof -
  have "map_of (metadataEntries (search composer_search ciconiaBundle ''cicon'' (Some ''composer'')
             (Some [''.'', ''x'', ''m'', ''l'']))) ''ciconia_quod_jactatur_xml'' = Some entry_ciconia"
    by (simp add: search_def new_bundle_def ciconiaBundle_def entry_ciconia_def composer_search_def
          startswith_def endswith_def dict_keys_def)
  moreover have "\<not> literal_extension_filter (sourcePath entry_ciconia) (Some [''.'', ''x'', ''m'', ''l''])"
    by (simp add: literal_extension_filter_def entry_ciconia_def ciconia_extension endswith_def)
  ultimately show ?thesis by simp
qed

text \<open>
  C5, amended. For a bundle with a well-formed dictionary, \<open>search\<close> returns a bundle
  without a name that holds, under its key, exactly each entry of the bundle whose
  payload is not null and reports a match for the query and field, and whose source
  path passes the filter: no filter is given, or the source path ends with a member of
  the filter, or a member ends with \<open>'xml'\<close> and the source path ends with \<open>'mxl'\<close>
  or \<open>'mx'\<close>. So with the filter \<open>'.xml'\<close> a matching entry whose source path ends
  with \<open>'.mxl'\<close> is in the result, and one whose source path ends with \<open>'.krn'\<close> is
  not. The function reads the bundle and returns the new one; the bundle it searched
  is the same value afterwards.
\<close>

theorem search_result:
  assumes "wf_dict (metadataEntries self)"
  shows
   "name (search ps self q f exts) = None \<and>
    wf_dict (metadataEntries (search ps self q f exts)) \<and>
    (map_of (metadataEntries (search ps self q f exts)) key = Some e \<longleftrightarrow>
       map_of (metadataEntries self) key = Some e \<and>
       (\<exists>p. metadataPayload e = Some p \<and> ps p q f) \<and>
       (exts = None \<or>
        (\<exists>es. exts = Some es \<and>
           (\<exists>ext \<in> set es. endswith (sourcePath e) ext \<or>
              (endswith ext ''xml'' \<and>
               (endswith (sourcePath e) ''mxl'' \<or> endswith (sourcePath e) ''mx'')))))) \<and>
    (map_of (metadataEntries self) key = Some e \<and> (\<exists>p. metadataPayload e = Some p \<and> ps p q f) \<longrightarrow>
       (endswith (sourcePath e) ''.mxl'' \<longrightarrow>
          map_of (metadataEntries (search ps self q f (Some [''.xml'']))) key = Some e) \<and>
       (endswith (sourcePath e) ''.krn'' \<longrightarrow>
          map_of (metadataEntries (search ps self q f (Some [''.xml'']))) key = None))"
proof (intro conjI)
  show "name (search ps self q f exts) = None"
    by (simp add: search_def new_bundle_def)
  have "wf_dict ([] :: (string, 'a MetadataEntry) dict)"
    by (simp add: wf_dict_def dict_keys_def)
  then show "wf_dict (metadataEntries (search ps self q f exts))"
    by (simp add: search_def new_bundle_def search_loop_wf)
  show "map_of (metadataEntries (search ps self q f exts)) key = Some e \<longleftrightarrow>
       map_of (metadataEntries self) key = Some e \<and>
       (\<exists>p. metadataPayload e = Some p \<and> ps p q f) \<and>
       (exts = None \<or>
        (\<exists>es. exts = Some es \<and>
           (\<exists>ext \<in> set es. endswith (sourcePath e) ext \<or>
              (endswith ext ''xml'' \<and>
               (endswith (sourcePath e) ''mxl'' \<or> endswith (sourcePath e) ''mx'')))))"
    unfolding search_map [OF assms] search_admits_iff [symmetric]
    by (auto split: option.splits)
  show "map_of (metadataEntries self) key = Some e \<and> (\<exists>p. metadataPayload e = Some p \<and> ps p q f) \<longrightarrow>
       (endswith (sourcePath e) ''.mxl'' \<longrightarrow>
          map_of (metadataEntries (search ps self q f (Some [''.xml'']))) key = Some e) \<and>
       (endswith (sourcePath e) ''.krn'' \<longrightarrow>
          map_of (metadataEntries (search ps self q f (Some [''.xml'']))) key = None)"
    unfolding search_map [OF assms]
    by (auto simp: admits_xml_mxl admits_xml_krn)
qed

theorem search_result_witness:
  "wf_dict (metadataEntries coreBundle) \<and>
   map_of (metadataEntries (search composer_search coreBundle ''bach'' (Some ''composer'')
             (Some [''.xml'']))) ''bach_bwv66_6_mxl'' = Some entry_bwv66 \<and>
   map_of (metadataEntries (search composer_search coreBundle ''bach'' (Some ''composer'')
             (Some [''.xml'']))) ''bach_bwv7_7_krn'' = None"
proof -
  have w: "wf_dict (metadataEntries coreBundle)"
    by (simp add: wf_dict_def dict_keys_def coreBundle_def)
  have m: "composer_search ''bach'' ''bach'' (Some ''composer'')"
    by (simp add: composer_search_def startswith_def)
  have "map_of (metadataEntries (search composer_search coreBundle ''bach'' (Some ''composer'')
             (Some [''.xml'']))) ''bach_bwv66_6_mxl'' = Some entry_bwv66"
    using search_result [OF w, of composer_search "''bach''" "Some ''composer''" None
        "''bach_bwv66_6_mxl''" entry_bwv66, THEN conjunct2, THEN conjunct2, THEN conjunct2] m
    by (simp add: coreBundle_def entry_bwv66_def endswith_def)
  moreover have "map_of (metadataEntries (search composer_search coreBundle ''bach'' (Some ''composer'')
             (Some [''.xml'']))) ''bach_bwv7_7_krn'' = None"
    using search_result [OF w, of composer_search "''bach''" "Some ''composer''" None
        "''bach_bwv7_7_krn''" entry_bwv7, THEN conjunct2, THEN conjunct2, THEN conjunct2] m
    by (simp add: coreBundle_def entry_bwv7_def endswith_def)
  ultimately show ?thesis using w by simp
qed

subsection \<open>The jobs of a rebuild\<close>

lemma key_of_bwv66:
  "corpusPathToKey posix_env ''/music21/corpus/bach/bwv66.6.mxl'' None = ''bach_bwv66_6_mxl''"
  by (simp add: corpusPathToKey_def posix_env_def str_split_def startswith_def str_replace_def)

lemma normalize_bwv66:
  "normalize_path posix_env ''/music21/corpus/bach/bwv66.6.mxl'' = ''/music21/corpus/bach/bwv66.6.mxl''"
  by (simp add: normalize_path_def posix_env_def posix_abspath_def startswith_def)

lemma jobs_loop_Cons:
  "jobs_loop env fs entries mtime uc (path # paths) (c, s, jobs) =
     (if corpusPathToKey env (normalize_path env path) None \<in> set (dict_keys entries) \<and>
         \<not> startswith (corpusPathToKey env (normalize_path env path) None) ''http''
      then (case os_path_getctime fs (normalize_path env path) of
              Inl e \<Rightarrow> Inl e
            | Inr t \<Rightarrow>
                if t < mtime then jobs_loop env fs entries mtime uc paths (c, s + 1, jobs)
                else jobs_loop env fs entries mtime uc paths
                       (Suc c, s, jobs @ [\<lparr>job_filePath = normalize_path env path,
                                            jobNumber = Suc c, useCorpus = uc\<rparr>]))
      else jobs_loop env fs entries mtime uc paths
             (Suc c, s, jobs @ [\<lparr>job_filePath = normalize_path env path,
                                  jobNumber = Suc c, useCorpus = uc\<rparr>]))"
  by (simp add: Let_def)

lemma jobs_loop_paths:
  "jobs_loop env fs entries mtime uc paths (c, s, jobs) = Inr (c', s', jobs') \<Longrightarrow>
   job_filePath ` set jobs' =
     job_filePath ` set jobs \<union>
     {q. \<exists>p \<in> set paths. q = normalize_path env p \<and> \<not> cache_hit env fs entries mtime q}"
proof (induction paths arbitrary: c s jobs)
  case Nil
  then show ?case by simp
next
  case (Cons path paths)
  define q where "q = normalize_path env path"
  define j where "j = \<lparr>job_filePath = q, jobNumber = Suc c, useCorpus = uc\<rparr>"
  show ?case
  proof (cases "cache_hit env fs entries mtime q")
    case True
    then obtain t where t: "os_path_getctime fs q = Inr t" "t < mtime"
      and k: "corpusPathToKey env q None \<in> set (dict_keys entries)"
             "\<not> startswith (corpusPathToKey env q None) ''http''"
      by (auto simp: cache_hit_def split: sum.splits)
    have "jobs_loop env fs entries mtime uc (path # paths) (c, s, jobs) =
          jobs_loop env fs entries mtime uc paths (c, s + 1, jobs)"
      using t k unfolding jobs_loop_Cons q_def by simp
    with Cons.prems have "jobs_loop env fs entries mtime uc paths (c, s + 1, jobs) = Inr (c', s', jobs')"
      by simp
    from Cons.IH [OF this] show ?thesis
      using True by (auto simp: q_def)
  next
    case False
    have "jobs_loop env fs entries mtime uc (path # paths) (c, s, jobs) =
          jobs_loop env fs entries mtime uc paths (Suc c, s, jobs @ [j]) \<or>
          (\<exists>e. jobs_loop env fs entries mtime uc (path # paths) (c, s, jobs) = Inl e)"
      using False unfolding jobs_loop_Cons q_def [symmetric] j_def cache_hit_def
      by (auto split: sum.splits)
    with Cons.prems have "jobs_loop env fs entries mtime uc paths (Suc c, s, jobs @ [j]) = Inr (c', s', jobs')"
      by auto
    from Cons.IH [OF this] show ?thesis
      using False by (auto simp: q_def j_def)
  qed
qed

lemma jobs_loop_getctime:
  "jobs_loop env fs entries mtime uc paths st = Inr r \<Longrightarrow> path \<in> set paths \<Longrightarrow>
   corpusPathToKey env (normalize_path env path) None \<in> set (dict_keys entries) \<Longrightarrow>
   \<not> startswith (corpusPathToKey env (normalize_path env path) None) ''http'' \<Longrightarrow>
   \<exists>t. os_path_getctime fs (normalize_path env path) = Inr t"
proof (induction paths arbitrary: st)
  case Nil
  then show ?case by simp
next
  case (Cons p paths)
  obtain c s jobs where st: "st = (c, s, jobs)" by (cases st)
  show ?case
  proof (cases "path = p")
    case True
    show ?thesis
    proof (cases "os_path_getctime fs (normalize_path env path)")
      case (Inl e)
      then have "jobs_loop env fs entries mtime uc (p # paths) st = Inl e"
        using Cons.prems(3,4) unfolding st jobs_loop_Cons True by simp
      with Cons.prems(1) show ?thesis by simp
    next
      case (Inr t)
      then show ?thesis by blast
    qed
  next
    case False
    with Cons.prems(2) have mem: "path \<in> set paths" by simp
    from Cons.prems(1) obtain st' where "jobs_loop env fs entries mtime uc paths st' = Inr r"
      unfolding st jobs_loop_Cons by (auto split: if_splits sum.splits)
    from Cons.IH [OF this mem Cons.prems(3,4)] show ?thesis .
  qed
qed

lemma core_mtime:
  "metadataBundleModificationTime posix_env (disk_at t) coreBundle = 500"
  by (simp add: metadataBundleModificationTime_def core_filePath coreBundle_def disk_at_def)

lemma bwv66_getctime:
  "os_path_getctime (disk_at t) ''/music21/corpus/bach/bwv66.6.mxl'' = Inr t"
  by (simp add: os_path_getctime_def disk_at_def)

lemma bwv66_key_in_core:
  "''bach_bwv66_6_mxl'' \<in> set (dict_keys (metadataEntries coreBundle))"
  by (simp add: coreBundle_def dict_keys_def)

lemma bwv66_key_not_http: "\<not> startswith ''bach_bwv66_6_mxl'' ''http''"
  by (simp add: startswith_def)

lemma addFromPaths_jobs_bwv66:
  "addFromPaths_jobs posix_env (disk_at t) coreBundle [''/music21/corpus/bach/bwv66.6.mxl''] False =
     Inr (if t < 500 then []
          else [\<lparr>job_filePath = ''/music21/corpus/bach/bwv66.6.mxl'', jobNumber = 1, useCorpus = False\<rparr>])"
  by (simp add: addFromPaths_jobs_def core_mtime normalize_bwv66 key_of_bwv66 bwv66_getctime
        bwv66_key_in_core bwv66_key_not_http)

text \<open>
  The loop returns its jobs whenever every path that it has to compare with the
  reference time exists on the disk.
\<close>

lemma jobs_loop_returns:
  "(\<And>p. p \<in> set paths \<Longrightarrow>
      corpusPathToKey env (normalize_path env p) None \<in> set (dict_keys entries) \<Longrightarrow>
      \<not> startswith (corpusPathToKey env (normalize_path env p) None) ''http'' \<Longrightarrow>
      os_path_exists fs (normalize_path env p)) \<Longrightarrow>
   \<exists>r. jobs_loop env fs entries mtime uc paths st = Inr r"
proof (induction paths arbitrary: st)
  case Nil
  show ?case by (cases st) simp
next
  case (Cons p paths)
  obtain c s jobs where st: "st = (c, s, jobs)" by (cases st)
  have rest: "\<exists>r. jobs_loop env fs entries mtime uc paths st' = Inr r" for st'
    by (rule Cons.IH) (simp add: Cons.prems)
  show ?case
  proof (cases "corpusPathToKey env (normalize_path env p) None \<in> set (dict_keys entries) \<and>
         \<not> startswith (corpusPathToKey env (normalize_path env p) None) ''http''")
    case True
    then have "os_path_exists fs (normalize_path env p)"
      using Cons.prems [of p] by simp
    then obtain f where "fs (normalize_path env p) = Some f"
      by (auto simp: os_path_exists_def)
    then show ?thesis
      unfolding st jobs_loop_Cons using True rest
      by (simp add: os_path_getctime_def)
  next
    case False
    then show ?thesis
      unfolding st jobs_loop_Cons using rest by auto
  qed
qed

text \<open>
  C2, the claim as stated fails where the two times are equal: the source is then not
  newer than the snapshot, and the loop schedules a job, since it skips a path only
  when its time is less than the reference time.
\<close>

theorem staleness_equal_times_counterexample:
  "corpusPathToKey posix_env (normalize_path posix_env ''/music21/corpus/bach/bwv66.6.mxl'') None
     \<in> set (dict_keys (metadataEntries coreBundle)) \<and>
   \<not> startswith
       (corpusPathToKey posix_env (normalize_path posix_env ''/music21/corpus/bach/bwv66.6.mxl'') None)
       ''http'' \<and>
   os_path_getctime (disk_at 500) ''/music21/corpus/bach/bwv66.6.mxl'' = Inr 500 \<and>
   metadataBundleModificationTime posix_env (disk_at 500) coreBundle = 500 \<and>
   addFromPaths_jobs posix_env (disk_at 500) coreBundle [''/music21/corpus/bach/bwv66.6.mxl''] False =
     Inr [\<lparr>job_filePath = ''/music21/corpus/bach/bwv66.6.mxl'', jobNumber = 1, useCorpus = False\<rparr>]"
  by (simp add: normalize_bwv66 key_of_bwv66 bwv66_key_in_core bwv66_key_not_http bwv66_getctime
        core_mtime addFromPaths_jobs_bwv66)

text \<open>
  C2, amended. For every input path whose key is in the entries and does not start
  with \<open>'http'\<close>: where \<open>addFromPaths\<close> gets as far as its list of jobs, the
  last-change time of the source was read, and a job for the path is in the list
  exactly when that time is not less than the reference time taken once before the
  loop (the last-change time of the bundle's own file where it exists, else the
  current time). So a source older than the snapshot gets no job, and a source newer
  than it, or of the same time, gets one. The list of jobs is reached whenever every
  such path exists on the disk.
\<close>

theorem staleness_decision:
  assumes "path \<in> set paths"
    and "corpusPathToKey env (normalize_path env path) None \<in> set (dict_keys (metadataEntries self))"
    and "\<not> startswith (corpusPathToKey env (normalize_path env path) None) ''http''"
  shows
    "(addFromPaths_jobs env fs self paths uc = Inr jobs \<longrightarrow>
        (\<exists>t. os_path_getctime fs (normalize_path env path) = Inr t \<and>
           (normalize_path env path \<in> job_filePath ` set jobs \<longleftrightarrow>
              \<not> t < metadataBundleModificationTime env fs self))) \<and>
     ((\<forall>p \<in> set paths.
          corpusPathToKey env (normalize_path env p) None \<in> set (dict_keys (metadataEntries self)) \<and>
          \<not> startswith (corpusPathToKey env (normalize_path env p) None) ''http'' \<longrightarrow>
          os_path_exists fs (normalize_path env p)) \<longrightarrow>
        (\<exists>js. addFromPaths_jobs env fs self paths uc = Inr js))"
proof (intro conjI impI)
  define mtime where "mtime = metadataBundleModificationTime env fs self"
  assume ret: "addFromPaths_jobs env fs self paths uc = Inr jobs"
  then obtain c s where
    loop: "jobs_loop env fs (metadataEntries self) mtime uc paths (0, 0, []) = Inr (c, s, jobs)"
    unfolding addFromPaths_jobs_def mtime_def by (auto split: sum.splits)
  from jobs_loop_getctime [OF loop assms] obtain t where
    t: "os_path_getctime fs (normalize_path env path) = Inr t" ..
  have "normalize_path env path \<in> job_filePath ` set jobs \<longleftrightarrow>
          \<not> cache_hit env fs (metadataEntries self) mtime (normalize_path env path)"
    unfolding jobs_loop_paths [OF loop] using assms(1) by auto
  also have "\<dots> \<longleftrightarrow> \<not> t < mtime"
    using assms(2,3) t by (simp add: cache_hit_def)
  finally show "\<exists>t. os_path_getctime fs (normalize_path env path) = Inr t \<and>
           (normalize_path env path \<in> job_filePath ` set jobs \<longleftrightarrow>
              \<not> t < metadataBundleModificationTime env fs self)"
    using t unfolding mtime_def by blast
next
  assume ex: "\<forall>p \<in> set paths.
          corpusPathToKey env (normalize_path env p) None \<in> set (dict_keys (metadataEntries self)) \<and>
          \<not> startswith (corpusPathToKey env (normalize_path env p) None) ''http'' \<longrightarrow>
          os_path_exists fs (normalize_path env p)"
  have "\<exists>r. jobs_loop env fs (metadataEntries self) (metadataBundleModificationTime env fs self)
             uc paths (0, 0, []) = Inr r"
    by (rule jobs_loop_returns) (simp add: ex)
  then show "\<exists>js. addFromPaths_jobs env fs self paths uc = Inr js"
    by (auto simp: addFromPaths_jobs_def split: prod.splits)
qed

theorem staleness_decision_witness:
  "''/music21/corpus/bach/bwv66.6.mxl'' \<in> set [''/music21/corpus/bach/bwv66.6.mxl''] \<and>
   corpusPathToKey posix_env (normalize_path posix_env ''/music21/corpus/bach/bwv66.6.mxl'') None
     \<in> set (dict_keys (metadataEntries coreBundle)) \<and>
   \<not> startswith
       (corpusPathToKey posix_env (normalize_path posix_env ''/music21/corpus/bach/bwv66.6.mxl'') None)
       ''http'' \<and>
   os_path_exists (disk_at 400) (normalize_path posix_env ''/music21/corpus/bach/bwv66.6.mxl'') \<and>
   addFromPaths_jobs posix_env (disk_at 400) coreBundle [''/music21/corpus/bach/bwv66.6.mxl''] False
     = Inr [] \<and>
   addFromPaths_jobs posix_env (disk_at 600) coreBundle [''/music21/corpus/bach/bwv66.6.mxl''] False
     = Inr [\<lparr>job_filePath = ''/music21/corpus/bach/bwv66.6.mxl'', jobNumber = 1, useCorpus = False\<rparr>] \<and>
   (\<exists>js. addFromPaths_jobs posix_env (disk_at 400) coreBundle
            [''/music21/corpus/bach/bwv66.6.mxl''] False = Inr js) \<and>
   (\<exists>t. os_path_getctime (disk_at 400) (normalize_path posix_env ''/music21/corpus/bach/bwv66.6.mxl'')
           = Inr t \<and>
        (normalize_path posix_env ''/music21/corpus/bach/bwv66.6.mxl'' \<in> job_filePath ` set [] \<longleftrightarrow>
           \<not> t < metadataBundleModificationTime posix_env (disk_at 400) coreBundle)) \<and>
   (\<exists>t. os_path_getctime (disk_at 600) (normalize_path posix_env ''/music21/corpus/bach/bwv66.6.mxl'')
           = Inr t \<and>
        (normalize_path posix_env ''/music21/corpus/bach/bwv66.6.mxl''
           \<in> job_filePath ` set [\<lparr>job_filePath = ''/music21/corpus/bach/bwv66.6.mxl'', jobNumber = 1,
                                    useCorpus = False\<rparr>] \<longleftrightarrow>
           \<not> t < metadataBundleModificationTime posix_env (disk_at 600) coreBundle))"
proof -
  have j400: "addFromPaths_jobs posix_env (disk_at 400) coreBundle
      [''/music21/corpus/bach/bwv66.6.mxl''] False = Inr []"
    by (simp add: addFromPaths_jobs_bwv66)
  have j600: "addFromPaths_jobs posix_env (disk_at 600) coreBundle
      [''/music21/corpus/bach/bwv66.6.mxl''] False =
      Inr [\<lparr>job_filePath = ''/music21/corpus/bach/bwv66.6.mxl'', jobNumber = 1, useCorpus = False\<rparr>]"
    by (simp add: addFromPaths_jobs_bwv66)
  have mem: "''/music21/corpus/bach/bwv66.6.mxl'' \<in> set [''/music21/corpus/bach/bwv66.6.mxl'']"
    by simp
  have k: "corpusPathToKey posix_env (normalize_path posix_env ''/music21/corpus/bach/bwv66.6.mxl'') None
     \<in> set (dict_keys (metadataEntries coreBundle))"
    by (simp add: normalize_bwv66 key_of_bwv66 bwv66_key_in_core)
  have h: "\<not> startswith
       (corpusPathToKey posix_env (normalize_path posix_env ''/music21/corpus/bach/bwv66.6.mxl'') None)
       ''http''"
    by (simp add: normalize_bwv66 key_of_bwv66 bwv66_key_not_http)
  have e: "os_path_exists (disk_at 400) (normalize_path posix_env ''/music21/corpus/bach/bwv66.6.mxl'')"
    by (simp add: normalize_bwv66 os_path_exists_def disk_at_def)
  have r400: "\<exists>js. addFromPaths_jobs posix_env (disk_at 400) coreBundle
            [''/music21/corpus/bach/bwv66.6.mxl''] False = Inr js"
    using staleness_decision [OF mem k h, of "disk_at 400" False "[]", THEN conjunct2] e
    by simp
  have d400: "\<exists>t. os_path_getctime (disk_at 400) (normalize_path posix_env ''/music21/corpus/bach/bwv66.6.mxl'')
           = Inr t \<and>
        (normalize_path posix_env ''/music21/corpus/bach/bwv66.6.mxl'' \<in> job_filePath ` set [] \<longleftrightarrow>
           \<not> t < metadataBundleModificationTime posix_env (disk_at 400) coreBundle)"
    using staleness_decision [OF mem k h, of "disk_at 400" False "[]", THEN conjunct1] j400
    by simp
  have d600: "\<exists>t. os_path_getctime (disk_at 600) (normalize_path posix_env ''/music21/corpus/bach/bwv66.6.mxl'')
           = Inr t \<and>
        (normalize_path posix_env ''/music21/corpus/bach/bwv66.6.mxl''
           \<in> job_filePath ` set [\<lparr>job_filePath = ''/music21/corpus/bach/bwv66.6.mxl'', jobNumber = 1,
                                    useCorpus = False\<rparr>] \<longleftrightarrow>
           \<not> t < metadataBundleModificationTime posix_env (disk_at 600) coreBundle)"
    using staleness_decision [OF mem k h, of "disk_at 600" False
        "[\<lparr>job_filePath = ''/music21/corpus/bach/bwv66.6.mxl'', jobNumber = 1, useCorpus = False\<rparr>]",
        THEN conjunct1] j600
    by simp
  show ?thesis
    using mem k h e j400 j600 r400 d400 d600 by (intro conjI)
qed

subsection \<open>Writing the snapshot\<close>

lemma write_bundle_anonymous: "name self = None \<Longrightarrow> write_bundle env fs self path = fs"
  by (simp add: write_bundle_def filePath_def)

lemma write_bundle_named:
  "filePath env self = Some own \<Longrightarrow> write_bundle env fs self path = jsonWrite env fs self own"
  by (simp add: write_bundle_def Let_def)

text \<open>
  C1. The claim asks that \<open>write(filePath)\<close> with an explicit path serializes the
  entries to that path, and that the call does nothing only for an unnamed bundle
  without a path; the docstring of \<open>write\<close> says the same (\<open>self.filePath\<close> is used
  if \<open>filePath\<close> is \<open>None\<close>). The code does otherwise: an unnamed bundle writes
  nothing although a path is given, and a named bundle writes to its own file path
  and leaves the given path untouched.
\<close>

theorem write_bundle_explicit_path:
  "write_bundle posix_env Map.empty bachBundle (Some ''/tmp/bach.json'') = Map.empty \<and>
   write_bundle posix_env Map.empty coreBundle (Some ''/tmp/core.json'') ''/tmp/core.json'' = None \<and>
   write_bundle posix_env Map.empty coreBundle (Some ''/tmp/core.json'')
       ''/music21/corpus/metadataCache/core.json'' =
     Some \<lparr>ctime = 1000, stored = metadataEntries coreBundle\<rparr>"
proof -
  have "name bachBundle = None" by (simp add: bachBundle_def)
  then have a: "write_bundle posix_env Map.empty bachBundle (Some ''/tmp/bach.json'') = Map.empty"
    by (rule write_bundle_anonymous)
  have "filePath posix_env coreBundle = Some ''/music21/corpus/metadataCache/core.json''"
    by (simp add: core_filePath coreBundle_def)
  then have "write_bundle posix_env Map.empty coreBundle (Some ''/tmp/core.json'') =
      jsonWrite posix_env Map.empty coreBundle ''/music21/corpus/metadataCache/core.json''"
    by (rule write_bundle_named)
  then show ?thesis using a by (simp add: jsonWrite_def posix_env_def)
qed

subsection \<open>Validation\<close>

lemma str_of_int_1: "str_of_int 1 = ''1''"
  by code_simp

lemma str_of_int_2: "str_of_int 2 = ''2''"
  by code_simp

lemma opus_keys:
  "corpusPathToKey posix_env (sourcePath entry_opus_1) (number entry_opus_1) =
     ''home_user_scores_opus_xml_1'' \<and>
   corpusPathToKey posix_env (sourcePath entry_opus_2) (number entry_opus_2) =
     ''home_user_scores_opus_xml_2''"
  by (simp add: corpusPathToKey_def posix_env_def entry_opus_1_def entry_opus_2_def startswith_def
        str_replace_def str_of_int_1 str_of_int_2)

text \<open>
  C3. The claim asks that every entry whose source is missing is removed, also when
  several entries share the missing source path, and that the number of removed
  entries is returned; the docstring of \<open>validate\<close> asks the same of each entry. The
  code does otherwise: of the two works of one missing opus file only the first is
  removed, the second is skipped as already validated, and the call returns 1.
\<close>

theorem validate_shared_missing_source:
  "\<not> os_path_exists (Map.empty :: string filesystem) (sourcePath entry_opus_1) \<and>
   sourcePath entry_opus_2 = sourcePath entry_opus_1 \<and>
   validate posix_env Map.empty opusBundle =
     Inr (\<lparr>name = None, metadataEntries = [(''home_user_scores_opus_xml_2'', entry_opus_2)]\<rparr>, 1)"
  by (simp add: validate_def opusBundle_def entry_opus_1_def entry_opus_2_def posix_env_def
        startswith_def os_path_exists_def dict_keys_def)

subsection \<open>Operands that are not bundles\<close>

text \<open>
  C7. With an operand that is not a bundle, every set operation and every comparison
  that goes through the key sets fails its assertion, and the failure is the result
  of the call; the equality comparison returns \<open>False\<close>.
\<close>

theorem non_bundle_operand:
  assumes "\<not> isinstance_bundle x"
  shows "and_bundle self x = Inl AssertionError \<and> or_bundle self x = Inl AssertionError \<and>
         sub_bundle self x = Inl AssertionError \<and> xor_bundle self x = Inl AssertionError \<and>
         difference_bundle self x = Inl AssertionError \<and>
         intersection_bundle self x = Inl AssertionError \<and>
         symmetric_difference self x = Inl AssertionError \<and>
         union_bundle self x = Inl AssertionError \<and>
         ge_bundle self x = Inl AssertionError \<and> gt_bundle self x = Inl AssertionError \<and>
         le_bundle self x = Inl AssertionError \<and> lt_bundle self x = Inl AssertionError \<and>
         isdisjoint self x = Inl AssertionError \<and> issubset self x = Inl AssertionError \<and>
         issuperset self x = Inl AssertionError \<and>
         eq_bundle self x = False"
proof -
  have "apply_set_operation self x operator = Inl AssertionError" for operator
    using assms by (cases x) (simp_all add: apply_set_operation_def)
  moreover have "apply_set_predicate self x predicate = Inl AssertionError" for predicate
    using assms by (cases x) (simp_all add: apply_set_predicate_def)
  moreover have "eq_bundle self x = False"
    using assms by (cases x) (simp_all add: eq_bundle_def)
  ultimately show ?thesis
    by (simp add: and_bundle_def or_bundle_def sub_bundle_def xor_bundle_def
          difference_bundle_def intersection_bundle_def symmetric_difference_def
          union_bundle_def ge_bundle_def gt_bundle_def le_bundle_def lt_bundle_def
          isdisjoint_def issubset_def issuperset_def)
qed

theorem non_bundle_operand_witness:
  "\<not> isinstance_bundle (StrObj ''foo'' :: string pyobject) \<and>
   union_bundle bachBundle (StrObj ''foo'') = Inl AssertionError \<and>
   lt_bundle bachBundle (StrObj ''foo'') = Inl AssertionError \<and>
   eq_bundle bachBundle (StrObj ''foo'') = False"
  using non_bundle_operand [of "StrObj ''foo''" bachBundle]
  by simp

subsection \<open>The inequality operator\<close>

lemma ne_bundle_no_result: "ne_bundle self expr = Some b \<Longrightarrow> False"
proof (rule ne_bundle.raw_induct [where P = "\<lambda>_ _ _. False"])
  show "ne_bundle self expr = Some b \<Longrightarrow> ne_bundle self expr = Some b" .
next
  fix f :: "'a MetadataBundle \<Rightarrow> 'a pyobject \<Rightarrow> bool option" and s e y
  assume "\<And>s e y. f s e = Some y \<Longrightarrow> False" and "f s e = Some y"
  then show False by blast
qed

text \<open>
  C10. \<open>b != x\<close> returns no result, for every bundle and every operand: the body of
  \<open>__ne__\<close> evaluates \<open>self != expr\<close>, which is the same call again.
\<close>

theorem ne_bundle_never_returns: "ne_bundle self expr = None"
  using ne_bundle_no_result [of self expr] by (cases "ne_bundle self expr") auto

end
